theory Spec2Isabelle
  imports Complex_Main "HOL-Library.Word" "HOL-Library.Product_Lexorder" "HOL-Library.Multiset"
begin

section \<open>Errors\<close>

text \<open>
  The exceptions that can leave \<open>check_video_motion\<close>: Python's ZeroDivisionError
  (the two divisions \<open>frame_count / fps\<close> and \<open>diff_count / total_pixels\<close>) and
  OpenCV's error for \<open>absdiff\<close> on arrays of different shapes.
\<close>

datatype error = ZeroDivisionError | CvError

section \<open>Frames and the OpenCV operations used by the source\<close>

text \<open>
  A decoded frame is a numpy array of shape (height, width, 3) of unsigned bytes in
  B, G, R order: a list of rows of pixels. A grayscale image is a list of rows of bytes.
\<close>

type_synonym pixel = "8 word \<times> 8 word \<times> 8 word"
type_synonym frame = "pixel list list"
type_synonym gray = "8 word list list"
type_synonym time_box = "int \<times> int \<times> int \<times> int"

definition shape0 :: "'a list list \<Rightarrow> nat" where
  "shape0 img = length img"

definition shape1 :: "'a list list \<Rightarrow> nat" where
  "shape1 img = (case img of [] \<Rightarrow> 0 | row # _ \<Rightarrow> length row)"

text \<open>
  A numpy array is rectangular; \<open>has_shape h w img\<close> says that \<open>img\<close> is an
  \<open>h\<close> by \<open>w\<close> array.
\<close>

definition has_shape :: "nat \<Rightarrow> nat \<Rightarrow> 'a list list \<Rightarrow> bool" where
  "has_shape h w img = (length img = h \<and> list_all (\<lambda>row. length row = w) img)"

text \<open>
  Python slice bounds on an axis of length \<open>n\<close>: a negative bound counts from the
  end, and every bound is clipped to \<open>0..n\<close>. \<open>in_slice n lo hi k\<close> says that index
  \<open>k\<close> is selected by \<open>lo:hi\<close>.
\<close>

definition slice_bound :: "nat \<Rightarrow> int \<Rightarrow> nat" where
  "slice_bound n i = (if i < 0 then nat (max 0 (i + int n)) else min (nat i) n)"

definition in_slice :: "nat \<Rightarrow> int \<Rightarrow> int \<Rightarrow> nat \<Rightarrow> bool" where
  "in_slice n lo hi k = (slice_bound n lo \<le> k \<and> k < slice_bound n hi)"

text \<open>\<open>frame[y1:y2, x1:x2] = 0\<close>\<close>

definition fill_time_box :: "time_box \<Rightarrow> frame \<Rightarrow> frame" where
  "fill_time_box box f = (case box of (x1, y1, x2, y2) \<Rightarrow>
     map (\<lambda>(y, row).
            if in_slice (length f) y1 y2 y
            then map (\<lambda>(x, p). if in_slice (length row) x1 x2 x then (0, 0, 0) else p)
                     (enumerate 0 row)
            else row)
         (enumerate 0 f))"

text \<open>
  \<open>cv2.cvtColor(frame, cv2.COLOR_BGR2GRAY)\<close> on bytes: OpenCV's fixed-point luminance,
  weights 0.114, 0.587 and 0.299 scaled by \<open>2 ^ 15\<close>, rounded to nearest.
\<close>

definition bgr2gray :: "pixel \<Rightarrow> 8 word" where
  "bgr2gray p = (case p of (b, g, r) \<Rightarrow>
     of_nat ((unat b * 3735 + unat g * 19235 + unat r * 9798 + 16384) div 32768))"

definition cvtColor_BGR2GRAY :: "frame \<Rightarrow> gray" where
  "cvtColor_BGR2GRAY f = map (map bgr2gray) f"

text \<open>
  \<open>cv2.GaussianBlur(gray, (21, 21), 0)\<close>: a separable 21-tap convolution with the
  border reflected without repeating the edge pixel (OpenCV's default border). With
  sigma given as 0 OpenCV derives sigma = 3.5 from the kernel size; on bytes it works in
  fixed point, the weights being the normalised Gaussian in units of 1/256 that sum
  to 256. The weights below are that Gaussian rounded, the centre weight taking the
  remainder. No theorem about arbitrary frames below depends on the values of the weights.
\<close>

definition gauss_kernel :: "nat list" where
  "gauss_kernel = [0, 1, 2, 4, 7, 11, 15, 20, 25, 28, 30, 28, 25, 20, 15, 11, 7, 4, 2, 1, 0]"

definition borderInterpolate :: "int \<Rightarrow> nat \<Rightarrow> nat" where
  "borderInterpolate p len =
     (if len \<le> 1 then 0
      else let m = p mod (2 * int len - 2)
           in nat (if m < int len then m else 2 * int len - 2 - m))"

definition convolve_line :: "nat list \<Rightarrow> nat list" where
  "convolve_line xs =
     map (\<lambda>c. sum_list (map (\<lambda>(k, w). w * xs ! borderInterpolate (int c + int k - 10) (length xs))
                             (enumerate 0 gauss_kernel)))
         [0..<length xs]"

definition GaussianBlur :: "gray \<Rightarrow> gray" where
  "GaussianBlur g =
     (let hp = map (\<lambda>row. convolve_line (map unat row)) g
      in map (\<lambda>y. map (\<lambda>x. of_nat ((sum_list (map (\<lambda>(k, w).
                                  w * hp ! borderInterpolate (int y + int k - 10) (length g) ! x)
                                (enumerate 0 gauss_kernel)) + 32768) div 65536))
                      [0..<length (g ! y)])
             [0..<length g])"

text \<open>
  \<open>cv2.absdiff(a, b)\<close>: the absolute difference of each pair of bytes; arrays of
  different shapes raise.
\<close>

definition absdiff :: "gray \<Rightarrow> gray \<Rightarrow> error + gray" where
  "absdiff a b =
     (if map length a \<noteq> map length b then Inl CvError
      else Inr (map2 (map2 (\<lambda>u v. if u \<le> v then v - u else u - v)) a b))"

text \<open>\<open>cv2.threshold(diff, 25, 255, cv2.THRESH_BINARY)[1]\<close>\<close>

definition threshold_binary :: "gray \<Rightarrow> gray" where
  "threshold_binary d = map (map (\<lambda>v. if 25 < v then 255 else 0)) d"

text \<open>
  \<open>cv2.dilate(thresh, None, iterations=2)\<close>: with no kernel given the structuring
  element is the 3 by 3 square, and pixels beyond the border are ignored. One iteration
  replaces every pixel by the maximum over its neighbourhood.
\<close>

definition nbrs :: "nat \<Rightarrow> nat \<Rightarrow> nat list" where
  "nbrs k n = filter (\<lambda>j. j < n) [k - 1 ..< k + 2]"

definition neighbourhood :: "gray \<Rightarrow> nat \<Rightarrow> nat \<Rightarrow> 8 word list" where
  "neighbourhood g y x =
     concat (map (\<lambda>y'. map (\<lambda>x'. g ! y' ! x') (nbrs x (length (g ! y')))) (nbrs y (length g)))"

definition dilate3x3 :: "gray \<Rightarrow> gray" where
  "dilate3x3 g =
     map (\<lambda>y. map (\<lambda>x. fold max (neighbourhood g y x) 0) [0..<length (g ! y)]) [0..<length g]"

definition dilate :: "gray \<Rightarrow> gray" where
  "dilate g = dilate3x3 (dilate3x3 g)"

text \<open>\<open>np.count_nonzero(thresh)\<close>\<close>

definition count_nonzero :: "gray \<Rightarrow> int" where
  "count_nonzero g = int (sum_list (map (\<lambda>row. length (filter (\<lambda>v. v \<noteq> 0) row)) g))"

section \<open>Motion classification: \<open>check_video_motion\<close>\<close>

text \<open>
  What \<open>cv2.VideoCapture(path)\<close> gives the source: whether it opened, the frames
  that \<open>read()\<close> returns one after the other, and the properties the source asks for.
  The frame count is the container's figure and need not be the number of frames that
  decode. The frame rate is a float in the source; it is a rational here.
\<close>

record capture =
  isOpened :: bool
  cap_frames :: "frame list"
  CAP_PROP_FRAME_COUNT :: int
  CAP_PROP_FPS :: rat
  CAP_PROP_FRAME_WIDTH :: int
  CAP_PROP_FRAME_HEIGHT :: int

text \<open>Mask, grayscale and blur: what the source does to every frame it compares.\<close>

definition prepare :: "time_box \<Rightarrow> frame \<Rightarrow> gray" where
  "prepare box f = GaussianBlur (cvtColor_BGR2GRAY (fill_time_box box f))"

text \<open>
  \<open>total_pixels = shape[0] * shape[1] - (x2 - x1) * (y2 - y1)\<close>, on Python's
  unbounded integers.
\<close>

definition total_pixels :: "gray \<Rightarrow> time_box \<Rightarrow> int" where
  "total_pixels g box = (case box of (x1, y1, x2, y2) \<Rightarrow>
     int (shape0 g) * int (shape1 g) - (x2 - x1) * (y2 - y1))"

text \<open>The changed-pixel image of a sampled frame against the reference frame.\<close>

definition changed_mask :: "gray \<Rightarrow> gray \<Rightarrow> error + gray" where
  "changed_mask frame_gray prev_frame_gray =
     (case absdiff frame_gray prev_frame_gray of
        Inl e \<Rightarrow> Inl e
      | Inr diff \<Rightarrow> Inr (dilate (threshold_binary diff)))"

text \<open>
  \<open>diff_count\<close> and \<open>diff_ratio = (diff_count / total_pixels) * 100\<close>. The ratio
  is a float in the source and a rational here; the division raises on a zero divisor.
\<close>

definition compare_frames :: "gray \<Rightarrow> gray \<Rightarrow> int \<Rightarrow> error + (int \<times> rat)" where
  "compare_frames frame_gray prev_frame_gray total_px =
     (case changed_mask frame_gray prev_frame_gray of
        Inl e \<Rightarrow> Inl e
      | Inr thresh \<Rightarrow>
          (let diff_count = count_nonzero thresh
           in if total_px = 0 then Inl ZeroDivisionError
              else Inr (diff_count, (of_int diff_count / of_int total_px) * 100)))"

text \<open>
  The Frame Differencer of the specification, \<open>difference(frameA, frameB, mask)\<close>, is
  the source's comparison of two frames of one clip: \<open>frameA\<close> the reference frame,
  \<open>frameB\<close> the sampled one.
\<close>

definition difference :: "frame \<Rightarrow> frame \<Rightarrow> time_box \<Rightarrow> error + (int \<times> rat)" where
  "difference frameA frameB box =
     (let prev_frame_gray = prepare box frameA
      in compare_frames (prepare box frameB) prev_frame_gray (total_pixels prev_frame_gray box))"

text \<open>
  The statistics the source keeps while it reads: \<open>max_diff\<close>, \<open>max_ratio\<close> and
  \<open>total_checked_frames\<close>. They are printed, never returned.
\<close>

record stats =
  max_diff :: int
  max_ratio :: rat
  total_checked_frames :: nat

text \<open>
  The \<open>while True\<close> loop over the frames still to be read. It ends when \<open>read()\<close>
  fails (the list is empty) or at the first sampled frame that passes both thresholds.
\<close>

fun motion_loop ::
  "int \<Rightarrow> time_box \<Rightarrow> rat \<Rightarrow> int \<Rightarrow> int \<Rightarrow> frame list \<Rightarrow> int \<Rightarrow> gray \<Rightarrow> stats
     \<Rightarrow> error + (bool \<times> stats)" where
  "motion_loop threshold box ratio_threshold check_interval total_px [] frame_idx prev st =
     Inr (False, st)"
| "motion_loop threshold box ratio_threshold check_interval total_px (frame # rest) frame_idx prev st =
     (let frame_idx = frame_idx + 1
      in if frame_idx mod check_interval \<noteq> 0
         then motion_loop threshold box ratio_threshold check_interval total_px rest frame_idx prev st
         else
           (let frame_gray = prepare box frame
            in case compare_frames frame_gray prev total_px of
                 Inl e \<Rightarrow> Inl e
               | Inr (diff_count, diff_ratio) \<Rightarrow>
                   (let st' = \<lparr>max_diff = max (max_diff st) diff_count,
                               max_ratio = max (max_ratio st) diff_ratio,
                               total_checked_frames = total_checked_frames st + 1\<rparr>
                    in if diff_count > threshold \<and> diff_ratio > ratio_threshold
                       then Inr (True, st')
                       else motion_loop threshold box ratio_threshold check_interval total_px
                              rest frame_idx frame_gray st')))"

definition check_video_motion_stats ::
  "capture \<Rightarrow> int \<Rightarrow> time_box \<Rightarrow> rat \<Rightarrow> error + (bool \<times> stats)" where
  "check_video_motion_stats cap threshold box ratio_threshold =
     (if \<not> isOpened cap then Inr (True, \<lparr>max_diff = 0, max_ratio = 0, total_checked_frames = 0\<rparr>)
      else case cap_frames cap of
        [] \<Rightarrow> Inr (True, \<lparr>max_diff = 0, max_ratio = 0, total_checked_frames = 0\<rparr>)
      | prev_frame # rest \<Rightarrow>
          (let frame_count = CAP_PROP_FRAME_COUNT cap
           in if CAP_PROP_FPS cap = 0 then Inl ZeroDivisionError
              else
                (let prev_frame_gray = prepare box prev_frame;
                     check_interval = max 1 (frame_count div 20);
                     total_px = total_pixels prev_frame_gray box
                 in motion_loop threshold box ratio_threshold check_interval total_px rest 0
                      prev_frame_gray \<lparr>max_diff = 0, max_ratio = 0, total_checked_frames = 0\<rparr>)))"

definition check_video_motion :: "capture \<Rightarrow> int \<Rightarrow> time_box \<Rightarrow> rat \<Rightarrow> error + bool" where
  "check_video_motion cap threshold box ratio_threshold =
     map_sum id fst (check_video_motion_stats cap threshold box ratio_threshold)"

section \<open>Python strings\<close>

text \<open>
  A Python \<open>str\<close> is a sequence of Unicode code points, here natural numbers.
  \<open>str_of\<close> gives the \<open>str\<close> of an ASCII literal.
\<close>

type_synonym str = "nat list"

definition str_of :: "string \<Rightarrow> str" where
  "str_of s = map of_char s"

text \<open>
  The decimal digits of Unicode (general category Nd, character database 14.0): 66 runs
  of ten consecutive code points with the values 0 to 9, each run given by the code point
  of its zero. They are the characters that \<open>\d\<close> matches in a \<open>str\<close> pattern, and
  \<open>int\<close> reads each of them with its value.
\<close>

definition decimal_zeros :: "nat list" where
  "decimal_zeros =
     [48, 1632, 1776, 1984, 2406, 2534, 2662, 2790, 2918, 3046, 3174, 3302, 3430, 3558, 3664,
      3792, 3872, 4160, 4240, 6112, 6160, 6470, 6608, 6784, 6800, 6992, 7088, 7232, 7248, 42528,
      43216, 43264, 43472, 43504, 43600, 44016, 65296, 66720, 68912, 69734, 69872, 69942, 70096,
      70384, 70736, 70864, 71248, 71360, 71472, 71904, 72016, 72784, 73040, 73120, 92768, 92864,
      93008, 120782, 120792, 120802, 120812, 120822, 123200, 123632, 125264, 130032]"

definition decimal_value :: "nat \<Rightarrow> nat option" where
  "decimal_value c = map_option (\<lambda>z. c - z) (find (\<lambda>z. z \<le> c \<and> c < z + 10) decimal_zeros)"

definition is_digit :: "nat \<Rightarrow> bool" where
  "is_digit c = (decimal_value c \<noteq> None)"

section \<open>Temporal key: \<open>parse_video_time\<close>\<close>

text \<open>
  \<open>int(s)\<close> on a non-empty string of digits: its decimal value. (File names are far
  shorter than the limit that recent interpreters put on the length of such a string.)
\<close>

definition int_of_digits :: "str \<Rightarrow> int" where
  "int_of_digits ds =
     foldl (\<lambda>a c. 10 * a + (case decimal_value c of Some v \<Rightarrow> int v | None \<Rightarrow> 0)) 0 ds"

text \<open>
  \<open>re.match(r'(\d+)M(\d+)S_\d+', filename)\<close> matches at the start of the string
  and need not reach its end. A run of digits is followed by a letter in the pattern, and
  the letters \<open>M\<close> and \<open>S\<close> are no digits, so the greedy match of \<open>\d+\<close> is the
  longest run of digits; the last \<open>\d+\<close> needs one digit.
\<close>

definition parse_video_time :: "str \<Rightarrow> int \<times> int" where
  "parse_video_time filename =
     (let g1 = takeWhile is_digit filename; r1 = dropWhile is_digit filename
      in if g1 = [] \<or> take 1 r1 \<noteq> str_of ''M'' then (0, 0)
         else
           (let r2 = drop 1 r1; g2 = takeWhile is_digit r2; r3 = dropWhile is_digit r2
            in if g2 = [] \<or> take 2 r3 \<noteq> str_of ''S_'' then (0, 0)
               else case drop 2 r3 of
                 [] \<Rightarrow> (0, 0)
               | d # _ \<Rightarrow> if is_digit d then (int_of_digits g1, int_of_digits g2) else (0, 0)))"

text \<open>
  What it means for the pattern to match: the string starts with digits, \<open>M\<close>, digits,
  \<open>S_\<close> and digits, each run of digits non-empty.
\<close>

definition digits :: "str \<Rightarrow> bool" where
  "digits ds = (ds \<noteq> [] \<and> list_all is_digit ds)"


section \<open>Paths\<close>

text \<open>
  A \<open>pathlib.Path\<close> is its \<open>str\<close>, components separated by \<open>/\<close> and no trailing
  separator. \<open>name\<close> is the last component; \<open>suffix\<close> starts at the last dot of the
  name unless that dot is the first or the last character; \<open>stem\<close> is the name without
  the suffix.
\<close>

type_synonym path = str

definition path_name :: "path \<Rightarrow> str" where
  "path_name p = rev (takeWhile (\<lambda>c. c \<noteq> of_char (CHR ''/'')) (rev p))"

definition suffix_start :: "str \<Rightarrow> nat" where
  "suffix_start name =
     (let t = length (takeWhile (\<lambda>c. c \<noteq> of_char (CHR ''.'')) (rev name))
      in if t = length name \<or> t = 0 \<or> length name - t - 1 = 0 then length name
         else length name - t - 1)"

definition path_suffix :: "path \<Rightarrow> str" where
  "path_suffix p = drop (suffix_start (path_name p)) (path_name p)"

definition path_stem :: "path \<Rightarrow> str" where
  "path_stem p = take (suffix_start (path_name p)) (path_name p)"

text \<open>
  \<open>str.lower()\<close>. The letters A to Z become a to z; the Kelvin sign (code point 8490)
  becomes k; the capital I with a dot above (304) becomes i and a combining dot. The
  lower-case form of every other code point holds no ASCII character (character database
  14.0); such a code point is left as it is here, which does not change whether the
  result is one of the ASCII extensions that the source compares it with.
\<close>

definition lower_char :: "nat \<Rightarrow> str" where
  "lower_char c =
     (if 65 \<le> c \<and> c \<le> 90 then [c + 32]
      else if c = 8490 then [107]
      else if c = 304 then [105, 775]
      else [c])"

definition lower :: "str \<Rightarrow> str" where
  "lower s = concat (map lower_char s)"

section \<open>Files, the writer and the external encoder\<close>

datatype codec = H264 | MP4V | LIBX264

text \<open>
  A video file on disk: whether a \<open>VideoCapture\<close> can open it, what the capture then
  reports, and the codec it was written with.
\<close>

record video_file =
  decodable :: bool
  file_frames :: "frame list"
  file_frame_count :: int
  file_fps :: rat
  file_width :: int
  file_height :: int
  file_codec :: codec

type_synonym filesystem = "path \<rightharpoonup> video_file"

definition closed_capture :: capture where
  "closed_capture = \<lparr>isOpened = False, cap_frames = [], CAP_PROP_FRAME_COUNT = 0,
     CAP_PROP_FPS = 0, CAP_PROP_FRAME_WIDTH = 0, CAP_PROP_FRAME_HEIGHT = 0\<rparr>"

definition VideoCapture :: "filesystem \<Rightarrow> path \<Rightarrow> capture" where
  "VideoCapture fs p =
     (case fs p of
        None \<Rightarrow> closed_capture
      | Some f \<Rightarrow>
          if decodable f
          then \<lparr>isOpened = True, cap_frames = file_frames f,
                CAP_PROP_FRAME_COUNT = file_frame_count f, CAP_PROP_FPS = file_fps f,
                CAP_PROP_FRAME_WIDTH = file_width f, CAP_PROP_FRAME_HEIGHT = file_height f\<rparr>
          else closed_capture)"

text \<open>
  The runtime environment: which \<open>cv2.VideoWriter\<close> opens (it depends on the codecs
  installed), and what the shell command \<open>ffmpeg -i temp -c:v libx264 -crf 23 output\<close>
  leaves at the output path: a file, or nothing when ffmpeg is missing or fails.
  \<open>os.system\<close> returns the exit status and never raises; the source ignores the status.
\<close>

record environment =
  writer_opens :: "codec \<Rightarrow> path \<Rightarrow> rat \<Rightarrow> int \<times> int \<Rightarrow> bool"
  ffmpeg :: "video_file \<Rightarrow> video_file option"

record writer =
  w_opened :: bool
  w_codec :: codec
  w_fps :: rat
  w_size :: "int \<times> int"
  w_frames :: "frame list"

text \<open>
  \<open>cv2.VideoWriter(output_path, fourcc, fps, (frame_width, frame_height))\<close>. A writer
  that opens creates the file, which no capture can open before the writer is released.
\<close>

definition VideoWriter ::
  "environment \<Rightarrow> filesystem \<Rightarrow> path \<Rightarrow> codec \<Rightarrow> rat \<Rightarrow> int \<times> int \<Rightarrow> writer \<times> filesystem" where
  "VideoWriter env fs p c fps sz =
     (if writer_opens env c p fps sz
      then (\<lparr>w_opened = True, w_codec = c, w_fps = fps, w_size = sz, w_frames = []\<rparr>,
            fs(p \<mapsto> \<lparr>decodable = False, file_frames = [], file_frame_count = 0, file_fps = fps,
                     file_width = fst sz, file_height = snd sz, file_codec = c\<rparr>))
      else (\<lparr>w_opened = False, w_codec = c, w_fps = fps, w_size = sz, w_frames = []\<rparr>, fs))"

text \<open>\<open>out.write(frame)\<close>: nothing happens on a writer that is not open.\<close>

definition writer_write :: "writer \<Rightarrow> frame \<Rightarrow> writer" where
  "writer_write out f = (if w_opened out then out\<lparr>w_frames := w_frames out @ [f]\<rparr> else out)"

text \<open>\<open>out.release()\<close>: the file of an open writer now holds the frames written.\<close>

definition writer_release :: "writer \<Rightarrow> filesystem \<Rightarrow> path \<Rightarrow> filesystem" where
  "writer_release out fs p =
     (if w_opened out
      then fs(p \<mapsto> \<lparr>decodable = True, file_frames = w_frames out,
                     file_frame_count = int (length (w_frames out)), file_fps = w_fps out,
                     file_width = fst (w_size out), file_height = snd (w_size out),
                     file_codec = w_codec out\<rparr>)
      else fs)"

section \<open>Concatenation: \<open>concatenate_videos\<close>\<close>

text \<open>The messages that \<open>concatenate_videos\<close> and \<open>process_video_folder\<close> print.\<close>

datatype message =
    NothingToConcatenate
  | CannotOpenVideo path
  | TryingOtherCodec
  | ProcessingVideo path
  | ConcatenationSaved path
  | RecompressionDone
  | RecompressionFailed
  | DeletingStaticVideo path
  | FileDoesNotExist path
  | KeepingVideo path

type_synonym world = "filesystem \<times> message list"

text \<open>
  \<open>sorted(video_files, key=lambda x: parse_video_time(x.stem))\<close>: Python's sort is
  stable and compares the key tuples lexicographically.
\<close>

definition temporal_key :: "path \<Rightarrow> int \<times> int" where
  "temporal_key x = parse_video_time (path_stem x)"

definition sorted_videos :: "path list \<Rightarrow> path list" where
  "sorted_videos video_files = sort_key temporal_key video_files"

text \<open>The inner \<open>while True\<close> loop: every frame read is written.\<close>

fun write_frames :: "writer \<Rightarrow> frame list \<Rightarrow> writer" where
  "write_frames out [] = out"
| "write_frames out (frame # rest) = write_frames (writer_write out frame) rest"

text \<open>The \<open>for video_path in sorted_videos\<close> loop.\<close>

fun write_clips :: "filesystem \<Rightarrow> path list \<Rightarrow> writer \<times> message list \<Rightarrow> writer \<times> message list" where
  "write_clips fs [] (out, msgs) = (out, msgs)"
| "write_clips fs (video_path # rest) (out, msgs) =
     write_clips fs rest
       (write_frames out (cap_frames (VideoCapture fs video_path)), msgs @ [ProcessingVideo video_path])"

text \<open>
  The first pass, up to \<open>out.release()\<close> and the message that the file was saved.
  It is entered with a non-empty list whose first sorted clip opens.
\<close>

definition first_pass :: "environment \<Rightarrow> path list \<Rightarrow> path \<Rightarrow> world \<Rightarrow> world" where
  "first_pass env sorted_vs output_path w = (case w of (fs, msgs) \<Rightarrow>
     (let first_video = VideoCapture fs (hd sorted_vs);
          sz = (CAP_PROP_FRAME_WIDTH first_video, CAP_PROP_FRAME_HEIGHT first_video);
          fps = CAP_PROP_FPS first_video;
          fs1 = (if fs output_path \<noteq> None then fs(output_path := None) else fs);
          (out, fs2) = VideoWriter env fs1 output_path H264 fps sz;
          (out, fs3, msgs1) =
             (if \<not> w_opened out
              then (case VideoWriter env fs2 output_path MP4V fps sz of
                      (out', fs') \<Rightarrow> (out', fs', msgs @ [TryingOtherCodec]))
              else (out, fs2, msgs));
          (out, msgs2) = write_clips fs3 sorted_vs (out, msgs1)
      in (writer_release out fs3 output_path, msgs2 @ [ConcatenationSaved output_path])))"

text \<open>
  The second pass, inside \<open>try\<close>. \<open>os.rename\<close> raises when there is no file at the
  output path, and the handler prints the failure; it replaces a file at the temporary
  path. \<open>os.system\<close> does not raise whatever ffmpeg does, so \<open>os.remove\<close> and the
  message that the pass is done follow in every other case.
\<close>

definition second_pass :: "environment \<Rightarrow> path \<Rightarrow> world \<Rightarrow> world" where
  "second_pass env output_path w = (case w of (fs, msgs) \<Rightarrow>
     (let temp_output = output_path @ str_of ''.temp.mp4''
      in case fs output_path of
           None \<Rightarrow> (fs, msgs @ [RecompressionFailed])
         | Some f \<Rightarrow>
             (let fs1 = (fs(output_path := None))(temp_output \<mapsto> f);
                  fs2 = (case ffmpeg env f of None \<Rightarrow> fs1 | Some g \<Rightarrow> fs1(output_path \<mapsto> g));
                  fs3 = fs2(temp_output := None)
              in (fs3, msgs @ [RecompressionDone]))))"

definition concatenate_videos :: "environment \<Rightarrow> path list \<Rightarrow> path \<Rightarrow> world \<Rightarrow> world" where
  "concatenate_videos env video_files output_path w = (case w of (fs, msgs) \<Rightarrow>
     (if video_files = [] then (fs, msgs @ [NothingToConcatenate])
      else
        (let sorted_vs = sorted_videos video_files
         in if \<not> isOpened (VideoCapture fs (hd sorted_vs))
            then (fs, msgs @ [CannotOpenVideo (hd sorted_vs)])
            else second_pass env output_path (first_pass env sorted_vs output_path (fs, msgs)))))"

section \<open>The folder pass: \<open>process_video_folder\<close>\<close>

definition video_extensions :: "str list" where
  "video_extensions = [str_of ''.mp4'', str_of ''.avi'', str_of ''.mkv'']"

text \<open>
  The loop over the files that \<open>folder.glob('**/*')\<close> yields, with the list of kept
  videos. An exception of \<open>check_video_motion\<close> ends the pass.
\<close>

fun scan_files ::
  "int \<Rightarrow> time_box \<Rightarrow> rat \<Rightarrow> path list \<Rightarrow> world \<times> path list \<Rightarrow> error + (world \<times> path list)" where
  "scan_files threshold box ratio_threshold [] st = Inr st"
| "scan_files threshold box ratio_threshold (video_file # rest) ((fs, msgs), kept_videos) =
     (if lower (path_suffix video_file) \<in> set video_extensions
      then
        (case check_video_motion (VideoCapture fs video_file) threshold box ratio_threshold of
           Inl e \<Rightarrow> Inl e
         | Inr has_motion \<Rightarrow>
             if \<not> has_motion
             then
               (if fs video_file \<noteq> None
                then scan_files threshold box ratio_threshold rest
                       ((fs(video_file := None),
                         msgs @ [ProcessingVideo video_file, DeletingStaticVideo video_file]),
                        kept_videos)
                else scan_files threshold box ratio_threshold rest
                       ((fs, msgs @ [ProcessingVideo video_file, DeletingStaticVideo video_file,
                                    FileDoesNotExist video_file]),
                        kept_videos))
             else scan_files threshold box ratio_threshold rest
                    ((fs, msgs @ [ProcessingVideo video_file, KeepingVideo video_file]),
                     kept_videos @ [video_file]))
      else scan_files threshold box ratio_threshold rest ((fs, msgs), kept_videos))"

text \<open>
  \<open>files\<close> is what the walk of the folder yields, in its order;
  \<open>str(folder / 'concatenated_output.mp4')\<close> is the output path.
\<close>

definition process_video_folder ::
  "environment \<Rightarrow> path \<Rightarrow> path list \<Rightarrow> int \<Rightarrow> bool \<Rightarrow> time_box \<Rightarrow> rat \<Rightarrow> world \<Rightarrow> error + world" where
  "process_video_folder env folder_path files threshold concat_flag box ratio_threshold w =
     (case scan_files threshold box ratio_threshold files (w, []) of
        Inl e \<Rightarrow> Inl e
      | Inr (w', kept_videos) \<Rightarrow>
          if concat_flag \<and> kept_videos \<noteq> []
          then Inr (concatenate_videos env kept_videos (folder_path @ str_of ''/concatenated_output.mp4'') w')
          else Inr w')"

section \<open>The mask invariant of the specification and example data\<close>

text \<open>
  The specification's invariant of a mask region on a frame of height \<open>h\<close> and
  width \<open>w\<close>. The source does not check it.
\<close>

definition mask_invariant :: "nat \<Rightarrow> nat \<Rightarrow> time_box \<Rightarrow> bool" where
  "mask_invariant h w box = (case box of (x1, y1, x2, y2) \<Rightarrow>
     0 \<le> x1 \<and> x1 \<le> x2 \<and> x2 \<le> int w \<and> 0 \<le> y1 \<and> y1 \<le> y2 \<and> y2 \<le> int h)"

text \<open>The pixel in column \<open>x\<close> of row \<open>y\<close> lies in the mask rectangle.\<close>

definition in_box :: "time_box \<Rightarrow> nat \<Rightarrow> nat \<Rightarrow> bool" where
  "in_box box y x = (case box of (x1, y1, x2, y2) \<Rightarrow>
     x1 \<le> int x \<and> int x < x2 \<and> y1 \<le> int y \<and> int y < y2)"

text \<open>The pixels of an \<open>h\<close> by \<open>w\<close> frame that lie outside the mask rectangle.\<close>

definition outside_pixels :: "nat \<Rightarrow> nat \<Rightarrow> time_box \<Rightarrow> (nat \<times> nat) list" where
  "outside_pixels h w box =
     concat (map (\<lambda>y. map (\<lambda>x. (y, x)) (filter (\<lambda>x. \<not> in_box box y x) [0..<w])) [0..<h])"

text \<open>Two 4 by 4 frames, all black and all white, and files that hold such frames.\<close>

definition black_frame :: frame where
  "black_frame =
     [[(0, 0, 0), (0, 0, 0), (0, 0, 0), (0, 0, 0)],
      [(0, 0, 0), (0, 0, 0), (0, 0, 0), (0, 0, 0)],
      [(0, 0, 0), (0, 0, 0), (0, 0, 0), (0, 0, 0)],
      [(0, 0, 0), (0, 0, 0), (0, 0, 0), (0, 0, 0)]]"

definition white_frame :: frame where
  "white_frame =
     [[(255, 255, 255), (255, 255, 255), (255, 255, 255), (255, 255, 255)],
      [(255, 255, 255), (255, 255, 255), (255, 255, 255), (255, 255, 255)],
      [(255, 255, 255), (255, 255, 255), (255, 255, 255), (255, 255, 255)],
      [(255, 255, 255), (255, 255, 255), (255, 255, 255), (255, 255, 255)]]"

definition example_file :: "frame list \<Rightarrow> int \<Rightarrow> video_file" where
  "example_file frames n =
     \<lparr>decodable = True, file_frames = frames, file_frame_count = n, file_fps = 25,
      file_width = 4, file_height = 4, file_codec = H264\<rparr>"

text \<open>The capture of a file that holds the given frames and reports \<open>n\<close> frames.\<close>

definition example_capture :: "frame list \<Rightarrow> int \<Rightarrow> capture" where
  "example_capture frames n =
     \<lparr>isOpened = True, cap_frames = frames, CAP_PROP_FRAME_COUNT = n, CAP_PROP_FPS = 25,
      CAP_PROP_FRAME_WIDTH = 4, CAP_PROP_FRAME_HEIGHT = 4\<rparr>"

text \<open>
  Three runtime environments: every writer opens and ffmpeg is missing; only the MPEG-4
  writer opens; no writer opens. In the last two ffmpeg copies its input.
\<close>

definition env_without_ffmpeg :: environment where
  "env_without_ffmpeg = \<lparr>writer_opens = (\<lambda>c p fps sz. True), ffmpeg = (\<lambda>f. None)\<rparr>"

definition env_mp4v_only :: environment where
  "env_mp4v_only = \<lparr>writer_opens = (\<lambda>c p fps sz. c = MP4V), ffmpeg = (\<lambda>f. Some (f\<lparr>file_codec := LIBX264\<rparr>))\<rparr>"

definition env_no_writer :: environment where
  "env_no_writer = \<lparr>writer_opens = (\<lambda>c p fps sz. False), ffmpeg = (\<lambda>f. Some (f\<lparr>file_codec := LIBX264\<rparr>))\<rparr>"

text \<open>A folder with one clip in which the picture changes, and one with a static clip.\<close>

definition moving_folder :: filesystem where
  "moving_folder = [str_of ''clips/00M01S_1.mp4'' \<mapsto> example_file [black_frame, white_frame] 2]"

definition static_folder :: filesystem where
  "static_folder = [str_of ''clips/00M02S_2.mp4'' \<mapsto> example_file [black_frame, black_frame] 2]"

text \<open>
  A folder left by an earlier run: the only file is the earlier output, a clip in which
  the picture changes.
\<close>

definition rerun_folder :: filesystem where
  "rerun_folder =
     [str_of ''clips/concatenated_output.mp4'' \<mapsto> example_file [black_frame, white_frame] 2]"


text \<open>Three clips whose names carry the keys (4, 21), (1, 5) and (4, 20).\<close>

definition ordered_folder :: filesystem where
  "ordered_folder =
     [str_of ''clips/04M21S_1723482261.mp4'' \<mapsto> example_file [white_frame] 1,
      str_of ''clips/01M05S_1723482000.mp4'' \<mapsto> example_file [black_frame] 1,
      str_of ''clips/04M20S_1723482260.mp4'' \<mapsto> example_file [black_frame, white_frame] 2]"

section \<open>Strings\<close>

lemma str_of_eq [simp]: "str_of a = str_of b \<longleftrightarrow> a = b"
  by (simp add: str_of_def inj_map_eq_map inj_on_def)

lemma str_of_append: "str_of a @ str_of b = str_of (a @ b)"
  by (simp add: str_of_def)

lemma decimal_value_ascii:
  "c < 1632 \<Longrightarrow> decimal_value c = (if 48 \<le> c \<and> c \<le> 57 then Some (c - 48) else None)"
  by (simp add: decimal_value_def decimal_zeros_def)

lemma is_digit_ascii: "c < 1632 \<Longrightarrow> is_digit c = (48 \<le> c \<and> c \<le> 57)"
  by (simp add: is_digit_def decimal_value_ascii)

lemma decimal_value_full_width:
  "decimal_value 65296 = Some 0" "decimal_value 65297 = Some 1" "decimal_value 65298 = Some 2"
  "decimal_value 65300 = Some 4"
  by (simp_all add: decimal_value_def decimal_zeros_def)

lemma is_digit_full_width: "is_digit 65296" "is_digit 65297" "is_digit 65298" "is_digit 65300"
  by (simp_all add: is_digit_def decimal_value_full_width)

lemma letters_are_no_digits: "\<not> is_digit 77" "\<not> is_digit 83"
  by (simp_all add: is_digit_ascii)

section \<open>The temporal key parser\<close>



text \<open>On a match the key is made of the two runs of digits.\<close>

lemma parse_of_match:
  assumes "digits m" "digits sec" "digits d"
  shows "parse_video_time (m @ str_of ''M'' @ sec @ str_of ''S_'' @ d @ rest) =
    (int_of_digits m, int_of_digits sec)"
proof -
  from assms(3) obtain d0 ds where d: "d = d0 # ds" and d0: "is_digit d0"
    by (cases d) (auto simp: digits_def)
  have am: "\<And>x. x \<in> set m \<Longrightarrow> is_digit x" and asec: "\<And>x. x \<in> set sec \<Longrightarrow> is_digit x"
    using assms(1,2) by (auto simp: digits_def list_all_iff)
  have t1: "takeWhile is_digit (m @ 77 # xs) = m" for xs
    using am letters_are_no_digits by (simp add: takeWhile_append2)
  have d1: "dropWhile is_digit (m @ 77 # xs) = 77 # xs" for xs
    using am letters_are_no_digits by (simp add: dropWhile_append2)
  have t2: "takeWhile is_digit (sec @ 83 # xs) = sec" for xs
    using asec letters_are_no_digits by (simp add: takeWhile_append2)
  have d2: "dropWhile is_digit (sec @ 83 # xs) = 83 # xs" for xs
    using asec letters_are_no_digits by (simp add: dropWhile_append2)
  have ne: "m \<noteq> []" "sec \<noteq> []" using assms(1,2) by (simp_all add: digits_def)
  show ?thesis
    using ne d0 by (simp add: parse_video_time_def str_of_def t1 d1 t2 d2 d Let_def)
qed


lemmas parse_eval = parse_video_time_def str_of_def is_digit_ascii decimal_value_ascii int_of_digits_def




text \<open>
  Digits beyond ASCII are digits: the full-width name of code points
  65296 65300 M 65298 65297 S _ 1, that is 04M21S_1 in full-width digits, has the key (4, 21).
\<close>

lemma parse_example_full_width:
  "parse_video_time [65296, 65300, 77, 65298, 65297, 83, 95, 49] = (4, 21)"
  by (simp add: parse_eval is_digit_full_width decimal_value_full_width)



section \<open>Shapes are preserved\<close>

lemma length_fill_time_box: "length (fill_time_box box f) = length f"
  by (cases box) (simp add: fill_time_box_def)

lemma length_fill_time_box_row:
  "y < length f \<Longrightarrow> length (fill_time_box box f ! y) = length (f ! y)"
  by (cases box) (simp add: fill_time_box_def nth_enumerate_eq)

lemma fill_time_box_nth:
  assumes "y < length f" "x < length (f ! y)"
  shows "fill_time_box (x1, y1, x2, y2) f ! y ! x =
    (if in_slice (length f) y1 y2 y \<and> in_slice (length (f ! y)) x1 x2 x then (0, 0, 0) else f ! y ! x)"
  using assms by (simp add: fill_time_box_def nth_enumerate_eq)

lemma map_length_fill_time_box: "map length (fill_time_box box f) = map length f"
  by (rule nth_equalityI) (simp_all add: length_fill_time_box length_fill_time_box_row)

lemma map_length_cvtColor: "map length (cvtColor_BGR2GRAY f) = map length f"
  by (simp add: cvtColor_BGR2GRAY_def comp_def)

lemma map_length_GaussianBlur: "map length (GaussianBlur g) = map length g"
  by (rule nth_equalityI) (simp_all add: GaussianBlur_def Let_def)

lemma map_length_prepare: "map length (prepare box f) = map length f"
  by (simp add: prepare_def map_length_GaussianBlur map_length_cvtColor map_length_fill_time_box)

lemma shape_prepare:
  "shape0 (prepare box f) = shape0 f" "shape1 (prepare box f) = shape1 f"
proof -
  have m: "map length (prepare box f) = map length f" by (rule map_length_prepare)
  from m have l: "length (prepare box f) = length f" by (metis length_map)
  then show "shape0 (prepare box f) = shape0 f" by (simp add: shape0_def)
  show "shape1 (prepare box f) = shape1 f"
  proof (cases f)
    case Nil
    with l show ?thesis by (simp add: shape1_def)
  next
    case (Cons r rs)
    with l obtain r' rs' where p: "prepare box f = r' # rs'" by (cases "prepare box f") auto
    with m Cons show ?thesis by (simp add: shape1_def)
  qed
qed

section \<open>Frames that do not differ\<close>

lemma absdiff_self: "absdiff a a = Inr (map (map (\<lambda>_. 0)) a)"
  by (simp add: absdiff_def zip_same_conv_map comp_def)

lemma threshold_binary_zero:
  "threshold_binary (map (map (\<lambda>_. 0)) a) = map (map (\<lambda>_. 0)) a"
  by (simp add: threshold_binary_def comp_def)

lemma fold_max_zero: "\<forall>z\<in>set zs. z = (0::8 word) \<Longrightarrow> fold max zs 0 = 0"
  by (induction zs) auto

lemma nbrs_bound: "j \<in> set (nbrs k n) \<Longrightarrow> j < n"
  by (simp add: nbrs_def)

lemma neighbourhood_zero:
  assumes "\<forall>row\<in>set g. \<forall>v\<in>set row. v = 0"
  shows "\<forall>z\<in>set (neighbourhood g y x). z = 0"
proof
  fix z assume "z \<in> set (neighbourhood g y x)"
  then obtain y' x' where "y' \<in> set (nbrs y (length g))" "x' \<in> set (nbrs x (length (g ! y')))"
    and z: "z = g ! y' ! x'"
    unfolding neighbourhood_def by auto
  then have b: "y' < length g" "x' < length (g ! y')"
    by (simp_all add: nbrs_bound)
  from b have "g ! y' \<in> set g" "g ! y' ! x' \<in> set (g ! y')" by simp_all
  with assms z show "z = 0" by blast
qed

lemma dilate3x3_zero:
  assumes "\<forall>row\<in>set g. \<forall>v\<in>set row. v = 0"
  shows "\<forall>row\<in>set (dilate3x3 g). \<forall>v\<in>set row. v = 0"
proof (intro ballI)
  fix row v assume "row \<in> set (dilate3x3 g)" "v \<in> set row"
  then obtain y x where "v = fold max (neighbourhood g y x) 0"
    unfolding dilate3x3_def by auto
  with neighbourhood_zero [OF assms] show "v = 0" by (simp add: fold_max_zero)
qed

lemma count_nonzero_zero:
  "\<forall>row\<in>set g. \<forall>v\<in>set row. v = 0 \<Longrightarrow> count_nonzero g = 0"
  by (auto simp: count_nonzero_def filter_empty_conv)

lemma changed_mask_self:
  "\<exists>m. changed_mask a a = Inr m \<and> count_nonzero m = 0"
proof -
  let ?z = "map (map (\<lambda>_. 0::8 word)) a"
  have "\<forall>row\<in>set ?z. \<forall>v\<in>set row. v = 0" by auto
  then have "\<forall>row\<in>set (dilate ?z). \<forall>v\<in>set row. v = 0"
    unfolding dilate_def by (intro dilate3x3_zero)
  then have "count_nonzero (dilate ?z) = 0" by (rule count_nonzero_zero)
  then show ?thesis
    by (simp add: changed_mask_def absdiff_self threshold_binary_zero)
qed

lemma compare_frames_self:
  "compare_frames a a tp = (if tp = 0 then Inl ZeroDivisionError else Inr (0, 0))"
  using changed_mask_self [of a] by (auto simp: compare_frames_def)

text \<open>
  Frames that are equal after the mask region is zeroed: no changed pixel, ratio 0,
  whenever the number of comparable pixels is not 0.
\<close>

lemma difference_equal_after_masking:
  assumes "fill_time_box box frameA = fill_time_box box frameB"
  shows "difference frameA frameB box =
    (if total_pixels (prepare box frameA) box = 0 then Inl ZeroDivisionError else Inr (0, 0))"
  using assms by (simp add: difference_def prepare_def compare_frames_self)

section \<open>Counting the pixels outside the mask\<close>

lemma length_filter_interval:
  assumes "a \<le> b" "b \<le> n"
  shows "length (filter (\<lambda>x. a \<le> x \<and> x < b) [0..<n]) = b - a"
proof -
  have "set (filter (\<lambda>x. a \<le> x \<and> x < b) [0..<n]) = {a..<b}" using assms by auto
  moreover have "distinct (filter (\<lambda>x. a \<le> x \<and> x < b) [0..<n])" by simp
  ultimately show ?thesis by (metis card_atLeastLessThan distinct_card)
qed

lemma row_outside_count:
  assumes "mask_invariant h w (x1, y1, x2, y2)"
  shows "int (length (filter (\<lambda>x. \<not> in_box (x1, y1, x2, y2) y x) [0..<w])) =
    int w - (if y1 \<le> int y \<and> int y < y2 then x2 - x1 else 0)"
proof (cases "y1 \<le> int y \<and> int y < y2")
  case True
  have inb: "in_box (x1, y1, x2, y2) y x \<longleftrightarrow> nat x1 \<le> x \<and> x < nat x2" for x
    using True assms by (auto simp: in_box_def mask_invariant_def)
  have le: "nat x1 \<le> nat x2" "nat x2 \<le> w" using assms by (auto simp: mask_invariant_def)
  have "length (filter (\<lambda>x. \<not> in_box (x1, y1, x2, y2) y x) [0..<w]) +
        length (filter (\<lambda>x. in_box (x1, y1, x2, y2) y x) [0..<w]) = w"
    using sum_length_filter_compl [of "\<lambda>x. in_box (x1, y1, x2, y2) y x" "[0..<w]"] by simp
  moreover have "length (filter (\<lambda>x. in_box (x1, y1, x2, y2) y x) [0..<w]) = nat x2 - nat x1"
    using length_filter_interval [OF le] by (simp add: inb)
  ultimately have "int (length (filter (\<lambda>x. \<not> in_box (x1, y1, x2, y2) y x) [0..<w])) =
      int w - int (nat x2 - nat x1)" by linarith
  also have "int (nat x2 - nat x1) = x2 - x1" using assms by (auto simp: mask_invariant_def)
  finally show ?thesis using True by simp
next
  case False
  then have "\<not> in_box (x1, y1, x2, y2) y x" for x by (auto simp: in_box_def)
  then have "filter (\<lambda>x. \<not> in_box (x1, y1, x2, y2) y x) [0..<w] = [0..<w]" by simp
  with False show ?thesis by auto
qed

lemma outside_pixels_count:
  assumes "mask_invariant h w (x1, y1, x2, y2)"
  shows "int (length (outside_pixels h w (x1, y1, x2, y2))) = int h * int w - (x2 - x1) * (y2 - y1)"
proof -
  let ?c = "\<lambda>y. if y1 \<le> int y \<and> int y < y2 then x2 - x1 else 0"
  have "int (length (outside_pixels h w (x1, y1, x2, y2))) =
      (\<Sum>y\<leftarrow>[0..<h]. int (length (filter (\<lambda>x. \<not> in_box (x1, y1, x2, y2) y x) [0..<w])))"
    by (simp add: outside_pixels_def length_concat comp_def sum_list_of_nat[symmetric] del: upt_Suc)
  also have "\<dots> = (\<Sum>y\<leftarrow>[0..<h]. int w - ?c y)"
    by (simp only: row_outside_count [OF assms])
  also have "\<dots> = (\<Sum>y = 0..<h. int w - ?c y)"
    by (simp add: interv_sum_list_conv_sum_set_nat)
  also have "\<dots> = int h * int w - (\<Sum>y = 0..<h. ?c y)"
    by (simp add: sum_subtractf)
  also have "(\<Sum>y = 0..<h. ?c y) = (x2 - x1) * (y2 - y1)"
  proof -
    have s: "{0..<h} \<inter> {y. y1 \<le> int y \<and> int y < y2} = {nat y1..<nat y2}"
      using assms by (auto simp: mask_invariant_def)
    have "(\<Sum>y = 0..<h. ?c y) = (\<Sum>y\<in>{nat y1..<nat y2}. x2 - x1)"
      by (simp add: sum.If_cases s)
    also have "\<dots> = (x2 - x1) * (y2 - y1)"
      using assms by (auto simp: mask_invariant_def)
    finally show ?thesis .
  qed
  finally show ?thesis .
qed

section \<open>The mask region\<close>

lemma has_shape_row: "has_shape h w img \<Longrightarrow> y < h \<Longrightarrow> length (img ! y) = w"
  by (auto simp: has_shape_def list_all_length)

lemma has_shape_shape:
  assumes "has_shape h w img"
  shows "shape0 img = h" "0 < h \<Longrightarrow> shape1 img = w"
  using assms by (cases img; auto simp: has_shape_def shape0_def shape1_def)+

lemma in_slice_in_box:
  assumes "mask_invariant h w (x1, y1, x2, y2)" "y < h" "x < w"
  shows "in_slice h y1 y2 y \<and> in_slice w x1 x2 x \<longleftrightarrow> in_box (x1, y1, x2, y2) y x"
  using assms by (auto simp: in_slice_def slice_bound_def in_box_def mask_invariant_def)

lemma fill_time_box_agree:
  assumes A: "has_shape h w A" and A': "has_shape h w A'"
    and inv: "mask_invariant h w box"
    and agree: "\<forall>y<h. \<forall>x<w. \<not> in_box box y x \<longrightarrow> A ! y ! x = A' ! y ! x"
  shows "fill_time_box box A = fill_time_box box A'"
proof -
  obtain x1 y1 x2 y2 where box: "box = (x1, y1, x2, y2)" by (cases box)
  have lA: "length A = h" and lA': "length A' = h" using A A' by (simp_all add: has_shape_def)
  show ?thesis
  proof (rule nth_equalityI)
    show "length (fill_time_box box A) = length (fill_time_box box A')"
      by (simp add: length_fill_time_box lA lA')
  next
    fix y assume "y < length (fill_time_box box A)"
    then have y: "y < h" by (simp add: length_fill_time_box lA)
    have rA: "length (A ! y) = w" and rA': "length (A' ! y) = w"
      using has_shape_row [OF A y] has_shape_row [OF A' y] by simp_all
    show "fill_time_box box A ! y = fill_time_box box A' ! y"
    proof (rule nth_equalityI)
      show "length (fill_time_box box A ! y) = length (fill_time_box box A' ! y)"
        using y by (simp add: length_fill_time_box_row lA lA' rA rA')
    next
      fix x assume "x < length (fill_time_box box A ! y)"
      then have x: "x < w" using y by (simp add: length_fill_time_box_row lA rA)
      have "fill_time_box box A ! y ! x =
          (if in_box box y x then (0, 0, 0) else A ! y ! x)"
        using fill_time_box_nth [of y A x x1 y1 x2 y2] in_slice_in_box [of h w x1 y1 x2 y2 y x]
          inv y x by (simp add: box lA rA)
      moreover have "fill_time_box box A' ! y ! x =
          (if in_box box y x then (0, 0, 0) else A' ! y ! x)"
        using fill_time_box_nth [of y A' x x1 y1 x2 y2] in_slice_in_box [of h w x1 y1 x2 y2 y x]
          inv y x by (simp add: box lA' rA')
      ultimately show "fill_time_box box A ! y ! x = fill_time_box box A' ! y ! x"
        using agree y x by simp
    qed
  qed
qed

lemma total_pixels_outside:
  assumes A: "has_shape h w A" and inv: "mask_invariant h w box"
  shows "total_pixels (prepare box A) box = int (length (outside_pixels h w box))"
proof -
  obtain x1 y1 x2 y2 where box: "box = (x1, y1, x2, y2)" by (cases box)
  show ?thesis
  proof (cases "h = 0")
    case True
    with inv box have "y2 - y1 = 0" by (simp add: mask_invariant_def)
    with True A show ?thesis
      using outside_pixels_count [of h w x1 y1 x2 y2] inv
      by (simp add: box total_pixels_def shape_prepare has_shape_shape(1))
  next
    case False
    then have "shape1 A = w" using has_shape_shape(2) [OF A] by simp
    then show ?thesis
      using outside_pixels_count [of h w x1 y1 x2 y2] inv A
      by (simp add: box total_pixels_def shape_prepare has_shape_shape(1))
  qed
qed

section \<open>Evaluation on the example frames\<close>

lemmas upt_eval = upt_rec[of 0 "numeral n"] upt_rec[of "Suc 0" "numeral n"] upt_rec[of 1 "numeral n"] for n

lemmas convolve_eval = convolve_line_def gauss_kernel_def borderInterpolate_def enumerate_eq_zip upt_eval

lemma fill_white: "fill_time_box (0, 0, 3, 3) white_frame =
  [[(0, 0, 0), (0, 0, 0), (0, 0, 0), (255, 255, 255)],
   [(0, 0, 0), (0, 0, 0), (0, 0, 0), (255, 255, 255)],
   [(0, 0, 0), (0, 0, 0), (0, 0, 0), (255, 255, 255)],
   [(255, 255, 255), (255, 255, 255), (255, 255, 255), (255, 255, 255)]]"
  by (simp add: white_frame_def fill_time_box_def in_slice_def slice_bound_def enumerate_eq_zip upt_eval)

lemma fill_black: "fill_time_box box black_frame = black_frame"
  by (cases box) (simp add: black_frame_def fill_time_box_def enumerate_eq_zip upt_eval)

lemma fill_white_full: "fill_time_box (0, 0, 4, 4) white_frame = black_frame"
  by (simp add: white_frame_def black_frame_def fill_time_box_def in_slice_def slice_bound_def
      enumerate_eq_zip upt_eval)

lemma gray_white: "cvtColor_BGR2GRAY (fill_time_box (0, 0, 3, 3) white_frame) =
  [[0, 0, 0, 255], [0, 0, 0, 255], [0, 0, 0, 255], [255, 255, 255, 255]]"
  by (simp add: fill_white cvtColor_BGR2GRAY_def bgr2gray_def)

lemma gray_black: "cvtColor_BGR2GRAY black_frame = [[0, 0, 0, 0], [0, 0, 0, 0], [0, 0, 0, 0], [0, 0, 0, 0]]"
  by (simp add: black_frame_def cvtColor_BGR2GRAY_def bgr2gray_def)

lemma conv_a: "convolve_line [0, 0, 0, 255] = [10710, 10710, 10965, 11220]"
  by (simp add: convolve_eval)
lemma conv_b: "convolve_line [255, 255, 255, 255] = [65280, 65280, 65280, 65280]"
  by (simp add: convolve_eval)
lemma conv_z: "convolve_line [0, 0, 0, 0] = [0, 0, 0, 0]"
  by (simp add: convolve_eval)

lemma prepare_white: "prepare (0, 0, 3, 3) white_frame =
  [[77, 77, 78, 78], [77, 77, 78, 78], [78, 78, 78, 79], [78, 78, 79, 80]]"
  by (simp add: prepare_def gray_white GaussianBlur_def conv_a conv_b gauss_kernel_def
      borderInterpolate_def enumerate_eq_zip upt_eval)

lemma prepare_black: "prepare box black_frame = [[0, 0, 0, 0], [0, 0, 0, 0], [0, 0, 0, 0], [0, 0, 0, 0]]"
  by (simp add: prepare_def fill_black gray_black GaussianBlur_def conv_z gauss_kernel_def
      borderInterpolate_def enumerate_eq_zip upt_eval)

lemma prepare_white_full: "prepare (0, 0, 4, 4) white_frame = [[0, 0, 0, 0], [0, 0, 0, 0], [0, 0, 0, 0], [0, 0, 0, 0]]"
  using prepare_black [of "(0, 0, 4, 4)"] by (simp add: prepare_def fill_white_full fill_black)

lemma absdiff_white_black:
  "absdiff [[77, 77, 78, 78], [77, 77, 78, 78], [78, 78, 78, 79], [78, 78, 79, 80]]
           [[0, 0, 0, 0], [0, 0, 0, 0], [0, 0, 0, 0], [0, 0, 0, 0]] =
   Inr [[77, 77, 78, 78], [77, 77, 78, 78], [78, 78, 78, 79], [78, 78, 79, 80]]"
  by (simp add: absdiff_def)

lemma threshold_white_black:
  "threshold_binary [[77, 77, 78, 78], [77, 77, 78, 78], [78, 78, 78, 79], [78, 78, 79, 80]] =
   [[255, 255, 255, 255], [255, 255, 255, 255], [255, 255, 255, 255], [255, 255, 255, 255]]"
  by (simp add: threshold_binary_def)

lemma dilate3x3_all_changed:
  "dilate3x3 [[255, 255, 255, 255], [255, 255, 255, 255], [255, 255, 255, 255], [255, 255, 255, 255]] =
   [[255, 255, 255, 255], [255, 255, 255, 255], [255, 255, 255, 255], [255, 255, 255, 255]]"
  by (simp add: dilate3x3_def neighbourhood_def nbrs_def upt_eval)

lemma changed_mask_white_black:
  "changed_mask (prepare (0, 0, 3, 3) white_frame) (prepare (0, 0, 3, 3) black_frame) =
   Inr [[255, 255, 255, 255], [255, 255, 255, 255], [255, 255, 255, 255], [255, 255, 255, 255]]"
  by (simp add: changed_mask_def prepare_white prepare_black absdiff_white_black
      threshold_white_black dilate_def dilate3x3_all_changed)

lemma count_all_changed:
  "count_nonzero [[255, 255, 255, 255], [255, 255, 255, 255], [255, 255, 255, 255], [255, 255, 255, 255]] = 16"
  by (simp add: count_nonzero_def)

lemma total_pixels_example: "total_pixels (prepare (0, 0, 3, 3) black_frame) (0, 0, 3, 3) = 7"
  by (simp add: total_pixels_def prepare_black shape0_def shape1_def)

lemma compare_white_black:
  "compare_frames (prepare (0, 0, 3, 3) white_frame) (prepare (0, 0, 3, 3) black_frame) 7 =
   Inr (16, 1600 / 7)"
  by (simp add: compare_frames_def changed_mask_white_black count_all_changed)

lemma has_shape_examples: "has_shape 4 4 black_frame" "has_shape 4 4 white_frame"
  by (simp_all add: has_shape_def black_frame_def white_frame_def)

lemma outside_example: "length (outside_pixels 4 4 (0, 0, 3, 3)) = 7"
  using outside_pixels_count [of 4 4 0 0 3 3] by (simp add: mask_invariant_def)

section \<open>The mask and the changed-pixel count\<close>

text \<open>
  Claim C2, as stated, fails. The frame is 4 by 4, the mask covers its upper left 3 by 3
  pixels, the reference frame is black and the sampled frame white. Blur and dilation
  spread the change outside the mask over the whole frame: all 16 pixels are counted,
  among them the pixel in row 1 and column 1 in the middle of the mask, while only 7
  pixels lie outside the mask. The ratio is 1600/7 percent.
\<close>

theorem masked_pixels_are_counted:
  "mask_invariant 4 4 (0, 0, 3, 3) \<and> in_box (0, 0, 3, 3) 1 1 \<and>
   changed_mask (prepare (0, 0, 3, 3) white_frame) (prepare (0, 0, 3, 3) black_frame) =
     Inr [[255, 255, 255, 255], [255, 255, 255, 255], [255, 255, 255, 255], [255, 255, 255, 255]] \<and>
   difference black_frame white_frame (0, 0, 3, 3) = Inr (16, 1600 / 7) \<and>
   length (outside_pixels 4 4 (0, 0, 3, 3)) = 7"
  by (simp add: mask_invariant_def in_box_def changed_mask_white_black difference_def
      total_pixels_example compare_white_black outside_example)

text \<open>
  Claim C2, amended. For frames of one shape and a mask that satisfies the invariant,
  the values of the pixels inside the mask rectangle have no influence on the changed-pixel
  count and the ratio: frame pairs that agree outside the mask have the same difference.
  The denominator of the ratio is the number of pixels outside the mask, frame area minus
  mask area.
\<close>

theorem mask_contents_ignored:
  assumes "has_shape h w A" "has_shape h w A'" "has_shape h w B" "has_shape h w B'"
    and "mask_invariant h w box"
    and "\<forall>y<h. \<forall>x<w. \<not> in_box box y x \<longrightarrow> A ! y ! x = A' ! y ! x \<and> B ! y ! x = B' ! y ! x"
  shows "difference A B box = difference A' B' box \<and>
    total_pixels (prepare box A) box = int (length (outside_pixels h w box))"
proof -
  have "fill_time_box box A = fill_time_box box A'"
    using assms by (intro fill_time_box_agree [of h w]) auto
  moreover have "fill_time_box box B = fill_time_box box B'"
    using assms by (intro fill_time_box_agree [of h w]) auto
  ultimately have "prepare box A = prepare box A'" "prepare box B = prepare box B'"
    by (simp_all add: prepare_def)
  then have "difference A B box = difference A' B' box" by (simp add: difference_def)
  with total_pixels_outside [OF assms(1,5)] show ?thesis by simp
qed

theorem mask_contents_ignored_witness:
  "has_shape 4 4 black_frame \<and> has_shape 4 4 white_frame \<and>
   has_shape 4 4 (fill_time_box (0, 0, 3, 3) white_frame) \<and>
   mask_invariant 4 4 (0, 0, 3, 3) \<and>
   white_frame \<noteq> fill_time_box (0, 0, 3, 3) white_frame \<and>
   difference black_frame white_frame (0, 0, 3, 3) =
     difference black_frame (fill_time_box (0, 0, 3, 3) white_frame) (0, 0, 3, 3) \<and>
   total_pixels (prepare (0, 0, 3, 3) black_frame) (0, 0, 3, 3) =
     int (length (outside_pixels 4 4 (0, 0, 3, 3)))"
proof -
  have s: "has_shape 4 4 (fill_time_box (0, 0, 3, 3) white_frame)"
    by (simp add: fill_white has_shape_def)
  have i: "mask_invariant 4 4 (0, 0, 3, 3)" by (simp add: mask_invariant_def)
  have a: "\<forall>y<4. \<forall>x<4. \<not> in_box (0, 0, 3, 3) y x \<longrightarrow>
      black_frame ! y ! x = black_frame ! y ! x \<and>
      white_frame ! y ! x = fill_time_box (0, 0, 3, 3) white_frame ! y ! x"
    unfolding fill_white
    by (simp add: white_frame_def in_box_def eval_nat_numeral All_less_Suc)
  have d: "white_frame \<noteq> fill_time_box (0, 0, 3, 3) white_frame"
    unfolding fill_white by (simp add: white_frame_def)
  from mask_contents_ignored [OF has_shape_examples(1) has_shape_examples(1)
      has_shape_examples(2) s i a] has_shape_examples s i d
  show ?thesis by blast
qed

section \<open>A denominator of zero\<close>

lemma compare_frames_zero_total:
  assumes "map length a = map length b"
  shows "compare_frames a b 0 = Inl ZeroDivisionError"
  using assms by (simp add: compare_frames_def changed_mask_def absdiff_def)

lemma motion_loop_zero_total:
  assumes "0 < ci" "\<exists>k. idx < k \<and> k \<le> idx + int (length frames) \<and> k mod ci = 0"
    and "\<forall>f\<in>set frames. map length f = map length prev"
  shows "motion_loop T box R ci 0 frames idx prev st = Inl ZeroDivisionError"
  using assms
proof (induction frames arbitrary: idx)
  case Nil
  then show ?case by auto
next
  case (Cons frame rest)
  show ?case
  proof (cases "(idx + 1) mod ci = 0")
    case True
    have "compare_frames (prepare box frame) prev 0 = Inl ZeroDivisionError"
      using Cons.prems(3) by (intro compare_frames_zero_total) (simp add: map_length_prepare)
    with True show ?thesis by (simp add: Let_def)
  next
    case False
    from Cons.prems(2) obtain k
      where kk: "idx < k \<and> k \<le> idx + int (length (frame # rest)) \<and> k mod ci = 0" ..
    from kk have k1: "idx < k" by (rule conjunct1)
    from kk have k2: "k \<le> idx + int (length (frame # rest))" by (elim conjE)
    from kk have k3: "k mod ci = 0" by (elim conjE)
    have ne: "k \<noteq> idx + 1"
    proof
      assume "k = idx + 1"
      with k3 have "(idx + 1) mod ci = 0" by (simp only:)
      with False show "HOL.False" by (simp only: not_True_eq_False)
    qed
    from k1 ne have k4: "idx + 1 < k" by linarith
    from k2 have k5: "k \<le> idx + 1 + int (length rest)" by simp
    have "\<exists>k. idx + 1 < k \<and> k \<le> idx + 1 + int (length rest) \<and> k mod ci = 0"
      by (intro exI [of _ k] conjI k4 k5 k3)
    from Cons.IH [OF Cons.prems(1) this] Cons.prems(3) False show ?thesis
      by (simp add: Let_def)
  qed
qed

lemma sampled_when_count_consistent:
  assumes "n = int (length frames)" "2 \<le> length frames"
  shows "max 1 (n div 20) < int (length frames)"
  using assms by auto

lemma total_pixels_zero_iff:
  assumes inv: "mask_invariant h w (x1, y1, x2, y2)" and h: "0 < h" and w: "0 < w"
  shows "int h * int w - (x2 - x1) * (y2 - y1) = 0 \<longleftrightarrow> (x1, y1, x2, y2) = (0, 0, int w, int h)"
proof
  assume z: "int h * int w - (x2 - x1) * (y2 - y1) = 0"
  let ?a = "x2 - x1" and ?b = "y2 - y1"
  from inv have a: "0 \<le> ?a" "?a \<le> int w" and b: "0 \<le> ?b" "?b \<le> int h"
    by (auto simp: mask_invariant_def)
  have "?a = int w"
  proof (rule ccontr)
    assume "?a \<noteq> int w"
    with a have lt: "?a < int w" by simp
    have "?a * ?b \<le> ?a * int h" using a b by (intro mult_left_mono) auto
    also have "\<dots> < int w * int h" using lt h by (intro mult_strict_right_mono) auto
    finally show False using z by (simp add: mult.commute)
  qed
  moreover have "?b = int h"
  proof (rule ccontr)
    assume "?b \<noteq> int h"
    with b have lt: "?b < int h" by simp
    have "?a * ?b \<le> int w * ?b" using a b by (intro mult_right_mono) auto
    also have "\<dots> < int w * int h" using lt w by (intro mult_strict_left_mono) auto
    finally show False using z by (simp add: mult.commute)
  qed
  ultimately show "(x1, y1, x2, y2) = (0, 0, int w, int h)"
    using inv by (auto simp: mask_invariant_def)
next
  assume "(x1, y1, x2, y2) = (0, 0, int w, int h)"
  then show "int h * int w - (x2 - x1) * (y2 - y1) = 0" by (simp add: mult.commute)
qed

section \<open>Example clips\<close>

lemma VideoCapture_example:
  "fs p = Some (example_file frames n) \<Longrightarrow> VideoCapture fs p = example_capture frames n"
  by (simp add: VideoCapture_def example_file_def example_capture_def)

lemma moving_clip_has_motion:
  "check_video_motion (example_capture [black_frame, white_frame] 2) 15 (0, 0, 3, 3) 100 = Inr True"
  by (simp add: check_video_motion_def check_video_motion_stats_def example_capture_def
      total_pixels_example compare_white_black Let_def)

lemma static_clip_has_no_motion:
  "check_video_motion (example_capture [black_frame, black_frame] 2) 500 (0, 0, 3, 3) (1 / 10) = Inr False"
  by (simp add: check_video_motion_def check_video_motion_stats_def example_capture_def
      total_pixels_example compare_frames_self Let_def)

section \<open>The denominator of the ratio\<close>

text \<open>
  Claim C10, as stated, fails in its last part. The mask covers the whole 4 by 4 frame and
  the clip has three frames that decode, but its container reports 100 frames: the stride
  is 5, no frame is sampled, nothing is divided and the clip is classified as static.
\<close>

theorem full_mask_without_division:
  "mask_invariant 4 4 (0, 0, 4, 4) \<and>
   total_pixels (prepare (0, 0, 4, 4) black_frame) (0, 0, 4, 4) = 0 \<and>
   check_video_motion (example_capture [black_frame, white_frame, white_frame] 100) 0 (0, 0, 4, 4) 0 =
     Inr False"
  by (simp add: mask_invariant_def total_pixels_def prepare_black shape0_def shape1_def
      check_video_motion_def check_video_motion_stats_def example_capture_def Let_def)

text \<open>
  Claim C10, amended. On frames of height \<open>h\<close> and width \<open>w\<close>, both positive, and
  for a mask that satisfies the invariant, the denominator is frame area minus mask area;
  it is positive exactly when the mask area is smaller than the frame area, and zero
  exactly when the mask covers the whole frame. With such a mask the classification of an
  opened clip whose frames have one shape fails with a division error as soon as one frame
  is sampled, that is when the stride is at most the number of frames after the first;
  this is so for every clip of two or more frames whose reported frame count is the number
  of frames that decode.
\<close>

theorem zero_denominator:
  assumes "has_shape h w f0" "0 < h" "0 < w" "mask_invariant h w (x1, y1, x2, y2)"
  shows "total_pixels (prepare (x1, y1, x2, y2) f0) (x1, y1, x2, y2) =
           int h * int w - (x2 - x1) * (y2 - y1) \<and>
         (0 < total_pixels (prepare (x1, y1, x2, y2) f0) (x1, y1, x2, y2) \<longleftrightarrow>
            (x2 - x1) * (y2 - y1) < int h * int w) \<and>
         (total_pixels (prepare (x1, y1, x2, y2) f0) (x1, y1, x2, y2) = 0 \<longleftrightarrow>
            (x1, y1, x2, y2) = (0, 0, int w, int h)) \<and>
         ((x1, y1, x2, y2) = (0, 0, int w, int h) \<and> isOpened cap \<and> cap_frames cap = f0 # rest \<and>
          (\<forall>f\<in>set rest. map length f = map length f0) \<and>
          (CAP_PROP_FRAME_COUNT cap = int (length (cap_frames cap)) \<and> 2 \<le> length (cap_frames cap) \<or>
           max 1 (CAP_PROP_FRAME_COUNT cap div 20) < int (length (cap_frames cap)))
          \<longrightarrow> check_video_motion cap threshold (x1, y1, x2, y2) ratio_threshold = Inl ZeroDivisionError)"
proof -
  let ?box = "(x1, y1, x2, y2)"
  have tp: "total_pixels (prepare ?box f0) ?box = int h * int w - (x2 - x1) * (y2 - y1)"
    using assms(1,2) by (simp add: total_pixels_def shape_prepare has_shape_shape)
  have z: "total_pixels (prepare ?box f0) ?box = 0 \<longleftrightarrow> ?box = (0, 0, int w, int h)"
    unfolding tp by (rule total_pixels_zero_iff [OF assms(4,2,3)])
  have e: "check_video_motion cap threshold ?box ratio_threshold = Inl ZeroDivisionError"
    if full: "?box = (0, 0, int w, int h)" and op: "isOpened cap" and fr: "cap_frames cap = f0 # rest"
      and sh: "\<forall>f\<in>set rest. map length f = map length f0"
      and smp: "CAP_PROP_FRAME_COUNT cap = int (length (cap_frames cap)) \<and> 2 \<le> length (cap_frames cap) \<or>
           max 1 (CAP_PROP_FRAME_COUNT cap div 20) < int (length (cap_frames cap))"
  proof (cases "CAP_PROP_FPS cap = 0")
    case True
    with op fr show ?thesis
      by (simp add: check_video_motion_def check_video_motion_stats_def)
  next
    case False
    let ?ci = "max 1 (CAP_PROP_FRAME_COUNT cap div 20)"
    from smp have "?ci < int (length (cap_frames cap))"
      using sampled_when_count_consistent by blast
    moreover have "int (length (cap_frames cap)) = 1 + int (length rest)" using fr by simp
    ultimately have "?ci \<le> int (length rest)" by linarith
    moreover have "0 < ?ci" "?ci mod ?ci = 0" by simp_all
    ultimately have "\<exists>k. 0 < k \<and> k \<le> 0 + int (length rest) \<and> k mod ?ci = 0"
      by (intro exI [of _ ?ci] conjI) simp_all
    moreover have "\<forall>f\<in>set rest. map length f = map length (prepare ?box f0)"
      using sh by (simp add: map_length_prepare)
    moreover have "0 < ?ci" by simp
    ultimately have "motion_loop threshold ?box ratio_threshold ?ci 0 rest 0 (prepare ?box f0)
        \<lparr>max_diff = 0, max_ratio = 0, total_checked_frames = 0\<rparr> = Inl ZeroDivisionError"
      by (intro motion_loop_zero_total)
    moreover have "total_pixels (prepare ?box f0) ?box = 0" using z full by simp
    ultimately show ?thesis using op fr False
      by (simp add: check_video_motion_def check_video_motion_stats_def Let_def)
  qed
  have p: "0 < total_pixels (prepare ?box f0) ?box \<longleftrightarrow> (x2 - x1) * (y2 - y1) < int h * int w"
    unfolding tp by auto
  show ?thesis
  proof (intro conjI impI)
    show "total_pixels (prepare ?box f0) ?box = int h * int w - (x2 - x1) * (y2 - y1)" by (rule tp)
    show "0 < total_pixels (prepare ?box f0) ?box \<longleftrightarrow> (x2 - x1) * (y2 - y1) < int h * int w"
      by (rule p)
    show "total_pixels (prepare ?box f0) ?box = 0 \<longleftrightarrow> ?box = (0, 0, int w, int h)" by (rule z)
  next
    assume a: "?box = (0, 0, int w, int h) \<and> isOpened cap \<and> cap_frames cap = f0 # rest \<and>
          (\<forall>f\<in>set rest. map length f = map length f0) \<and>
          (CAP_PROP_FRAME_COUNT cap = int (length (cap_frames cap)) \<and> 2 \<le> length (cap_frames cap) \<or>
           max 1 (CAP_PROP_FRAME_COUNT cap div 20) < int (length (cap_frames cap)))"
    show "check_video_motion cap threshold ?box ratio_threshold = Inl ZeroDivisionError"
      by (rule e) (use a in blast)+
  qed
qed


theorem zero_denominator_witness:
  "has_shape 4 4 black_frame \<and> mask_invariant 4 4 (0, 0, 4, 4) \<and>
   isOpened (example_capture [black_frame, white_frame] 2) \<and>
   cap_frames (example_capture [black_frame, white_frame] 2) = black_frame # [white_frame] \<and>
   map length white_frame = map length black_frame \<and>
   CAP_PROP_FRAME_COUNT (example_capture [black_frame, white_frame] 2) =
     int (length (cap_frames (example_capture [black_frame, white_frame] 2))) \<and>
   total_pixels (prepare (0, 0, 4, 4) black_frame) (0, 0, 4, 4) = 0 \<and>
   check_video_motion (example_capture [black_frame, white_frame] 2) 500 (0, 0, 4, 4) (1 / 10) =
     Inl ZeroDivisionError"
proof -
  have i: "mask_invariant 4 4 (0, 0, 4, 4)" by (simp add: mask_invariant_def)
  have c: "isOpened (example_capture [black_frame, white_frame] 2)"
    "cap_frames (example_capture [black_frame, white_frame] 2) = black_frame # [white_frame]"
    "CAP_PROP_FRAME_COUNT (example_capture [black_frame, white_frame] 2) =
       int (length (cap_frames (example_capture [black_frame, white_frame] 2)))"
    by (simp_all add: example_capture_def)
  have s: "\<forall>f\<in>set [white_frame]. map length f = map length black_frame"
    by (simp add: white_frame_def black_frame_def)
  from zero_denominator [OF has_shape_examples(1) _ _ i, of
      "example_capture [black_frame, white_frame] 2" "[white_frame]" 500 "1 / 10"] c s
  have "total_pixels (prepare (0, 0, 4, 4) black_frame) (0, 0, 4, 4) = 0 \<and>
    check_video_motion (example_capture [black_frame, white_frame] 2) 500 (0, 0, 4, 4) (1 / 10) =
      Inl ZeroDivisionError"
    by simp
  moreover have "map length white_frame = map length black_frame"
    by (simp add: white_frame_def black_frame_def)
  ultimately show ?thesis using has_shape_examples(1) i c by simp
qed

section \<open>Frames that are equal after masking\<close>

text \<open>
  Claim C9 at a mask that covers the whole frame. The white and the black 4 by 4 frame are
  equal once the mask region is zeroed, the invariant of the mask holds, and the
  comparison does not return (0, 0.0): the number of comparable pixels is 0 and the
  division raises.
\<close>

theorem equal_frames_full_mask_division_error:
  "mask_invariant 4 4 (0, 0, 4, 4) \<and>
   fill_time_box (0, 0, 4, 4) white_frame = fill_time_box (0, 0, 4, 4) black_frame \<and>
   difference white_frame black_frame (0, 0, 4, 4) = Inl ZeroDivisionError"
  by (simp add: mask_invariant_def fill_white_full fill_black difference_def prepare_black
      prepare_white_full total_pixels_def shape0_def shape1_def compare_frames_self)

section \<open>Unreadable clips\<close>





section \<open>Monotonicity in the thresholds\<close>

lemma motion_loop_mono:
  assumes "motion_loop T box R ci tp frames idx prev st = Inr (True, s1)" "T' \<le> T" "R' \<le> R"
  shows "\<exists>s2. motion_loop T' box R' ci tp frames idx prev st' = Inr (True, s2)"
  using assms
proof (induction frames arbitrary: idx prev st st' s1)
  case Nil
  then show ?case by simp
next
  case (Cons frame rest)
  show ?case
  proof (cases "(idx + 1) mod ci \<noteq> 0")
    case True
    with Cons.prems have "motion_loop T box R ci tp rest (idx + 1) prev st = Inr (True, s1)"
      by (simp add: Let_def)
    from Cons.IH [OF this Cons.prems(2,3)] True show ?thesis by (simp add: Let_def)
  next
    case False
    show ?thesis
    proof (cases "compare_frames (prepare box frame) prev tp")
      case (Inl e)
      with False Cons.prems show ?thesis by (simp add: Let_def)
    next
      case (Inr p)
      obtain dc dr where p: "p = (dc, dr)" by (cases p)
      show ?thesis
      proof (cases "dc > T' \<and> dr > R'")
        case True
        with False Inr p show ?thesis by (simp add: Let_def)
      next
        case nt: False
        with Cons.prems(2,3) have "\<not> (dc > T \<and> dr > R)" by auto
        with False Inr p Cons.prems(1) obtain sx where
          "motion_loop T box R ci tp rest (idx + 1) (prepare box frame) sx = Inr (True, s1)"
          by (auto simp: Let_def)
        from Cons.IH [OF this Cons.prems(2,3)] False Inr p nt show ?thesis
          by (simp add: Let_def)
      qed
    qed
  qed
qed

text \<open>
  Claim C5. For a fixed clip and mask, a verdict of motion with thresholds \<open>T\<close> and
  \<open>R\<close> is a verdict of motion with any thresholds \<open>T' \<le> T\<close> and \<open>R' \<le> R\<close>:
  lowering a threshold never turns true into false.
\<close>

theorem classification_monotone:
  assumes "check_video_motion cap T box R = Inr True" "T' \<le> T" "R' \<le> R"
  shows "check_video_motion cap T' box R' = Inr True"
proof (cases "\<not> isOpened cap \<or> cap_frames cap = []")
  case True
  then show ?thesis
    by (auto simp: check_video_motion_def check_video_motion_stats_def)
next
  case False
  then obtain f rest where fr: "cap_frames cap = f # rest" and op: "isOpened cap"
    by (cases "cap_frames cap") auto
  show ?thesis
  proof (cases "CAP_PROP_FPS cap = 0")
    case True
    with assms(1) fr op show ?thesis
      by (simp add: check_video_motion_def check_video_motion_stats_def Let_def)
  next
    case nz: False
    let ?ci = "max 1 (CAP_PROP_FRAME_COUNT cap div 20)"
    let ?tp = "total_pixels (prepare box f) box"
    let ?st = "\<lparr>max_diff = 0, max_ratio = 0, total_checked_frames = 0\<rparr>"
    from assms(1) fr op nz obtain s1 where
      "motion_loop T box R ?ci ?tp rest 0 (prepare box f) ?st = Inr (True, s1)"
      by (cases "motion_loop T box R ?ci ?tp rest 0 (prepare box f) ?st")
         (auto simp: check_video_motion_def check_video_motion_stats_def Let_def)
    from motion_loop_mono [OF this assms(2,3)] obtain s2 where
      "motion_loop T' box R' ?ci ?tp rest 0 (prepare box f) ?st = Inr (True, s2)" by blast
    with fr op nz show ?thesis
      by (simp add: check_video_motion_def check_video_motion_stats_def Let_def)
  qed
qed

theorem classification_monotone_witness:
  "check_video_motion (example_capture [black_frame, white_frame] 2) 15 (0, 0, 3, 3) 100 = Inr True \<and>
   (0::int) \<le> 15 \<and> (0::rat) \<le> 100 \<and>
   check_video_motion (example_capture [black_frame, white_frame] 2) 0 (0, 0, 3, 3) 0 = Inr True"
  using classification_monotone [OF moving_clip_has_motion, of 0 0] moving_clip_has_motion
  by simp

section \<open>The order of concatenation\<close>

lemma write_frames_result:
  "write_frames out frames = (if w_opened out then out\<lparr>w_frames := w_frames out @ frames\<rparr> else out)"
  by (induction frames arbitrary: out) (auto simp: writer_write_def)

lemma write_clips_result:
  "write_clips fs ps (out, msgs) =
     ((if w_opened out
       then out\<lparr>w_frames := w_frames out @ concat (map (\<lambda>p. cap_frames (VideoCapture fs p)) ps)\<rparr>
       else out),
      msgs @ map ProcessingVideo ps)"
  by (induction ps arbitrary: out msgs) (auto simp: write_frames_result)

lemmas key_eval = temporal_key_def path_stem_def path_name_def suffix_start_def parse_eval

lemma key_example_1: "temporal_key (str_of ''clips/04M21S_1723482261.mp4'') = (4, 21)"
  by (simp add: key_eval)

lemma key_example_2: "temporal_key (str_of ''clips/01M05S_1723482000.mp4'') = (1, 5)"
  by (simp add: key_eval)

lemma key_example_3: "temporal_key (str_of ''clips/04M20S_1723482260.mp4'') = (4, 20)"
  by (simp add: key_eval)

lemma key_example_4: "temporal_key (str_of ''clips/b.mp4'') = (0, 0)"
  by (simp add: key_eval)

lemma key_example_5: "temporal_key (str_of ''clips/a.mp4'') = (0, 0)"
  by (simp add: key_eval)

lemmas key_examples = key_example_1 key_example_2 key_example_3 key_example_4 key_example_5

lemma sorted_videos_example:
  "sorted_videos [str_of ''clips/04M21S_1723482261.mp4'', str_of ''clips/01M05S_1723482000.mp4'',
                  str_of ''clips/04M20S_1723482260.mp4''] =
     [str_of ''clips/01M05S_1723482000.mp4'', str_of ''clips/04M20S_1723482260.mp4'',
      str_of ''clips/04M21S_1723482261.mp4'']"
  by (simp add: sorted_videos_def key_examples)

text \<open>Names that do not parse have the key (0, 0): they come first, in their input order.\<close>

lemma sorted_videos_example_unparsable:
  "sorted_videos [str_of ''clips/04M21S_1723482261.mp4'', str_of ''clips/b.mp4'',
                  str_of ''clips/01M05S_1723482000.mp4'', str_of ''clips/a.mp4''] =
     [str_of ''clips/b.mp4'', str_of ''clips/a.mp4'', str_of ''clips/01M05S_1723482000.mp4'',
      str_of ''clips/04M21S_1723482261.mp4'']"
  by (simp add: sorted_videos_def key_examples)

section \<open>The two passes of the concatenator\<close>

lemma VideoCapture_in_progress:
  "\<not> decodable f \<Longrightarrow>
   VideoCapture (fs(p \<mapsto> f)) q = (if q = p then closed_capture else VideoCapture fs q)"
  by (simp add: VideoCapture_def)

lemma VideoCapture_removed:
  "VideoCapture (fs(p := None)) q = (if q = p then closed_capture else VideoCapture fs q)"
  by (simp add: VideoCapture_def)

text \<open>The frames that reach an open writer whose file is at \<open>output_path\<close>.\<close>

lemma frames_read_while_writing:
  assumes "\<not> decodable f" "fs1 = fs \<or> fs1 = fs(output_path := None)"
  shows "concat (map (\<lambda>p. cap_frames (VideoCapture (fs1(output_path \<mapsto> f)) p)) ps) =
         concat (map (\<lambda>p. if p = output_path then [] else cap_frames (VideoCapture fs p)) ps)"
proof -
  have "cap_frames (VideoCapture (fs1(output_path \<mapsto> f)) p) =
        (if p = output_path then [] else cap_frames (VideoCapture fs p))" for p
    using assms by (auto simp: VideoCapture_in_progress VideoCapture_removed closed_capture_def)
  then show ?thesis by simp
qed

lemma remove_output: "(if fs p \<noteq> None then fs(p := None) else fs) = fs(p := None)"
  by auto

lemma first_pass_primary:
  assumes "writer_opens env H264 output_path (CAP_PROP_FPS (VideoCapture fs (hd ps)))
     (CAP_PROP_FRAME_WIDTH (VideoCapture fs (hd ps)), CAP_PROP_FRAME_HEIGHT (VideoCapture fs (hd ps)))"
  shows "first_pass env ps output_path (fs, msgs) =
    (fs(output_path \<mapsto>
        \<lparr>decodable = True,
         file_frames = concat (map (\<lambda>p. if p = output_path then [] else cap_frames (VideoCapture fs p)) ps),
         file_frame_count = int (length (concat (map (\<lambda>p. if p = output_path then []
                                                   else cap_frames (VideoCapture fs p)) ps))),
         file_fps = CAP_PROP_FPS (VideoCapture fs (hd ps)),
         file_width = CAP_PROP_FRAME_WIDTH (VideoCapture fs (hd ps)),
         file_height = CAP_PROP_FRAME_HEIGHT (VideoCapture fs (hd ps)),
         file_codec = H264\<rparr>),
     msgs @ map ProcessingVideo ps @ [ConcatenationSaved output_path])"
  using assms
  by (simp add: first_pass_def VideoWriter_def write_clips_result writer_release_def remove_output
      frames_read_while_writing [where fs = fs] Let_def)

lemma first_pass_secondary:
  assumes "\<not> writer_opens env H264 output_path (CAP_PROP_FPS (VideoCapture fs (hd ps)))
     (CAP_PROP_FRAME_WIDTH (VideoCapture fs (hd ps)), CAP_PROP_FRAME_HEIGHT (VideoCapture fs (hd ps)))"
    and "writer_opens env MP4V output_path (CAP_PROP_FPS (VideoCapture fs (hd ps)))
     (CAP_PROP_FRAME_WIDTH (VideoCapture fs (hd ps)), CAP_PROP_FRAME_HEIGHT (VideoCapture fs (hd ps)))"
  shows "first_pass env ps output_path (fs, msgs) =
    (fs(output_path \<mapsto>
        \<lparr>decodable = True,
         file_frames = concat (map (\<lambda>p. if p = output_path then [] else cap_frames (VideoCapture fs p)) ps),
         file_frame_count = int (length (concat (map (\<lambda>p. if p = output_path then []
                                                   else cap_frames (VideoCapture fs p)) ps))),
         file_fps = CAP_PROP_FPS (VideoCapture fs (hd ps)),
         file_width = CAP_PROP_FRAME_WIDTH (VideoCapture fs (hd ps)),
         file_height = CAP_PROP_FRAME_HEIGHT (VideoCapture fs (hd ps)),
         file_codec = MP4V\<rparr>),
     msgs @ [TryingOtherCodec] @ map ProcessingVideo ps @ [ConcatenationSaved output_path])"
  using assms
  by (simp add: first_pass_def VideoWriter_def write_clips_result writer_release_def remove_output
      frames_read_while_writing [where fs = fs] Let_def)

lemma first_pass_no_writer:
  assumes "\<not> writer_opens env H264 output_path (CAP_PROP_FPS (VideoCapture fs (hd ps)))
     (CAP_PROP_FRAME_WIDTH (VideoCapture fs (hd ps)), CAP_PROP_FRAME_HEIGHT (VideoCapture fs (hd ps)))"
    and "\<not> writer_opens env MP4V output_path (CAP_PROP_FPS (VideoCapture fs (hd ps)))
     (CAP_PROP_FRAME_WIDTH (VideoCapture fs (hd ps)), CAP_PROP_FRAME_HEIGHT (VideoCapture fs (hd ps)))"
  shows "first_pass env ps output_path (fs, msgs) =
    (fs(output_path := None),
     msgs @ [TryingOtherCodec] @ map ProcessingVideo ps @ [ConcatenationSaved output_path])"
  using assms
  by (auto simp: first_pass_def VideoWriter_def write_clips_result writer_release_def Let_def)

lemma second_pass_no_file:
  "fs output_path = None \<Longrightarrow>
   second_pass env output_path (fs, msgs) = (fs, msgs @ [RecompressionFailed])"
  by (simp add: second_pass_def)

lemma second_pass_ffmpeg_fails:
  "fs output_path = Some f \<Longrightarrow> ffmpeg env f = None \<Longrightarrow>
   second_pass env output_path (fs, msgs) =
     (fs(output_path := None, output_path @ str_of ''.temp.mp4'' := None), msgs @ [RecompressionDone])"
  by (simp add: second_pass_def Let_def)

lemma second_pass_output:
  assumes "fs output_path = Some f"
  shows "fst (second_pass env output_path (fs, msgs)) output_path = ffmpeg env f"
    and "snd (second_pass env output_path (fs, msgs)) = msgs @ [RecompressionDone]"
  using assms by (auto simp: second_pass_def Let_def str_of_def split: option.splits)

text \<open>
  Claim C7. The list is not empty, its first sorted clip opens and a writer opens. The
  sorted clips are ascending in the parsed (minutes, seconds) key, a permutation of the
  input, and stable: clips of one key, among them all names that do not parse, keep their
  input order. The first pass of \<open>concatenate_videos\<close> writes to the output path the
  frames of the clips in that sorted order (a clip at the output path itself yields none),
  the second pass hands that file to ffmpeg, and the clips are reported in sorted order.
\<close>

theorem concatenation_order:
  assumes "video_files \<noteq> []"
    and "isOpened (VideoCapture fs (hd (sorted_videos video_files)))"
    and "writer_opens env H264 output_path
           (CAP_PROP_FPS (VideoCapture fs (hd (sorted_videos video_files))))
           (CAP_PROP_FRAME_WIDTH (VideoCapture fs (hd (sorted_videos video_files))),
            CAP_PROP_FRAME_HEIGHT (VideoCapture fs (hd (sorted_videos video_files)))) \<or>
         writer_opens env MP4V output_path
           (CAP_PROP_FPS (VideoCapture fs (hd (sorted_videos video_files))))
           (CAP_PROP_FRAME_WIDTH (VideoCapture fs (hd (sorted_videos video_files))),
            CAP_PROP_FRAME_HEIGHT (VideoCapture fs (hd (sorted_videos video_files))))"
  shows "sorted (map temporal_key (sorted_videos video_files)) \<and>
    mset (sorted_videos video_files) = mset video_files \<and>
    (\<forall>k. filter (\<lambda>x. temporal_key x = k) (sorted_videos video_files) =
         filter (\<lambda>x. temporal_key x = k) video_files) \<and>
    (\<exists>f. fst (first_pass env (sorted_videos video_files) output_path (fs, msgs)) output_path = Some f \<and>
         file_frames f =
           concat (map (\<lambda>p. if p = output_path then [] else cap_frames (VideoCapture fs p))
                       (sorted_videos video_files)) \<and>
         fst (concatenate_videos env video_files output_path (fs, msgs)) output_path = ffmpeg env f) \<and>
    (\<exists>before. snd (concatenate_videos env video_files output_path (fs, msgs)) =
         msgs @ before @ map ProcessingVideo (sorted_videos video_files) @
           [ConcatenationSaved output_path, RecompressionDone])"
proof -
  let ?ps = "sorted_videos video_files"
  let ?frames = "concat (map (\<lambda>p. if p = output_path then [] else cap_frames (VideoCapture fs p)) ?ps)"
  have c: "concatenate_videos env video_files output_path (fs, msgs) =
      second_pass env output_path (first_pass env ?ps output_path (fs, msgs))"
    using assms(1,2) by (simp add: concatenate_videos_def Let_def)
  let ?out = "first_pass env ?ps output_path (fs, msgs)"
  have "\<exists>f. fst ?out output_path = Some f \<and> file_frames f = ?frames"
    and "\<exists>before. snd ?out = msgs @ before @ map ProcessingVideo ?ps @ [ConcatenationSaved output_path]"
  proof -
    show "\<exists>f. fst ?out output_path = Some f \<and> file_frames f = ?frames"
    proof (cases "writer_opens env H264 output_path
           (CAP_PROP_FPS (VideoCapture fs (hd ?ps)))
           (CAP_PROP_FRAME_WIDTH (VideoCapture fs (hd ?ps)), CAP_PROP_FRAME_HEIGHT (VideoCapture fs (hd ?ps)))")
      case True
      show ?thesis by (simp add: first_pass_primary [OF True])
    next
      case False
      with assms(3) have "writer_opens env MP4V output_path
           (CAP_PROP_FPS (VideoCapture fs (hd ?ps)))
           (CAP_PROP_FRAME_WIDTH (VideoCapture fs (hd ?ps)), CAP_PROP_FRAME_HEIGHT (VideoCapture fs (hd ?ps)))"
        by simp
      from first_pass_secondary [OF False this] show ?thesis by simp
    qed
    show "\<exists>before. snd ?out = msgs @ before @ map ProcessingVideo ?ps @ [ConcatenationSaved output_path]"
    proof (cases "writer_opens env H264 output_path
           (CAP_PROP_FPS (VideoCapture fs (hd ?ps)))
           (CAP_PROP_FRAME_WIDTH (VideoCapture fs (hd ?ps)), CAP_PROP_FRAME_HEIGHT (VideoCapture fs (hd ?ps)))")
      case True
      show ?thesis by (rule exI [of _ "[]"]) (simp add: first_pass_primary [OF True])
    next
      case False
      with assms(3) have "writer_opens env MP4V output_path
           (CAP_PROP_FPS (VideoCapture fs (hd ?ps)))
           (CAP_PROP_FRAME_WIDTH (VideoCapture fs (hd ?ps)), CAP_PROP_FRAME_HEIGHT (VideoCapture fs (hd ?ps)))"
        by simp
      from first_pass_secondary [OF False this]
      show ?thesis by (intro exI [of _ "[TryingOtherCodec]"]) simp
    qed
  qed
  then obtain f before where f: "fst ?out output_path = Some f" "file_frames f = ?frames"
    and m: "snd ?out = msgs @ before @ map ProcessingVideo ?ps @ [ConcatenationSaved output_path]"
    by auto
  have sp: "second_pass env output_path ?out = second_pass env output_path (fst ?out, snd ?out)"
    by simp
  have 1: "\<exists>f. fst ?out output_path = Some f \<and> file_frames f = ?frames \<and>
      fst (concatenate_videos env video_files output_path (fs, msgs)) output_path = ffmpeg env f"
    using f second_pass_output(1) [of "fst ?out" output_path f env "snd ?out"] unfolding c sp by simp
  have 2: "\<exists>before. snd (concatenate_videos env video_files output_path (fs, msgs)) =
      msgs @ before @ map ProcessingVideo ?ps @ [ConcatenationSaved output_path, RecompressionDone]"
    using second_pass_output(2) [of "fst ?out" output_path f env "snd ?out"] f(1) m unfolding c sp
    by simp
  have 3: "sorted (map temporal_key ?ps)" "mset ?ps = mset video_files"
    by (simp_all add: sorted_videos_def)
  have 4: "\<forall>k. filter (\<lambda>x. temporal_key x = k) ?ps = filter (\<lambda>x. temporal_key x = k) video_files"
    by (simp add: sorted_videos_def sort_key_stable)
  from 1 2 3 4 show ?thesis by (intro conjI)
qed

lemma captures_ordered_folder:
  "VideoCapture ordered_folder (str_of ''clips/04M21S_1723482261.mp4'') = example_capture [white_frame] 1"
  "VideoCapture ordered_folder (str_of ''clips/01M05S_1723482000.mp4'') = example_capture [black_frame] 1"
  "VideoCapture ordered_folder (str_of ''clips/04M20S_1723482260.mp4'') =
     example_capture [black_frame, white_frame] 2"
  by (simp_all add: VideoCapture_def ordered_folder_def example_file_def example_capture_def)

theorem concatenation_order_witness:
  "isOpened (VideoCapture ordered_folder
     (hd (sorted_videos [str_of ''clips/04M21S_1723482261.mp4'', str_of ''clips/01M05S_1723482000.mp4'',
                         str_of ''clips/04M20S_1723482260.mp4'']))) \<and>
   writer_opens env_mp4v_only MP4V (str_of ''clips/concatenated_output.mp4'') 25 (4, 4) \<and>
   sorted_videos [str_of ''clips/04M21S_1723482261.mp4'', str_of ''clips/01M05S_1723482000.mp4'',
                  str_of ''clips/04M20S_1723482260.mp4''] =
     [str_of ''clips/01M05S_1723482000.mp4'', str_of ''clips/04M20S_1723482260.mp4'',
      str_of ''clips/04M21S_1723482261.mp4''] \<and>
   (\<exists>f. fst (first_pass env_mp4v_only
               (sorted_videos [str_of ''clips/04M21S_1723482261.mp4'',
                               str_of ''clips/01M05S_1723482000.mp4'',
                               str_of ''clips/04M20S_1723482260.mp4''])
               (str_of ''clips/concatenated_output.mp4'') (ordered_folder, []))
          (str_of ''clips/concatenated_output.mp4'') = Some f \<and>
        file_frames f = [black_frame, black_frame, white_frame, white_frame] \<and>
        fst (concatenate_videos env_mp4v_only
               [str_of ''clips/04M21S_1723482261.mp4'', str_of ''clips/01M05S_1723482000.mp4'',
                str_of ''clips/04M20S_1723482260.mp4'']
               (str_of ''clips/concatenated_output.mp4'') (ordered_folder, []))
          (str_of ''clips/concatenated_output.mp4'') = Some (f\<lparr>file_codec := LIBX264\<rparr>)) \<and>
   (\<exists>before. snd (concatenate_videos env_mp4v_only
               [str_of ''clips/04M21S_1723482261.mp4'', str_of ''clips/01M05S_1723482000.mp4'',
                str_of ''clips/04M20S_1723482260.mp4'']
               (str_of ''clips/concatenated_output.mp4'') (ordered_folder, [])) =
        before @ [ProcessingVideo (str_of ''clips/01M05S_1723482000.mp4''),
                  ProcessingVideo (str_of ''clips/04M20S_1723482260.mp4''),
                  ProcessingVideo (str_of ''clips/04M21S_1723482261.mp4''),
                  ConcatenationSaved (str_of ''clips/concatenated_output.mp4''), RecompressionDone])"
proof -
  let ?L = "[str_of ''clips/04M21S_1723482261.mp4'', str_of ''clips/01M05S_1723482000.mp4'',
             str_of ''clips/04M20S_1723482260.mp4'']"
  let ?out = "str_of ''clips/concatenated_output.mp4''"
  have n: "?L \<noteq> []" by simp
  have o: "isOpened (VideoCapture ordered_folder (hd (sorted_videos ?L)))"
    by (simp add: sorted_videos_example captures_ordered_folder example_capture_def)
  have w: "writer_opens env_mp4v_only H264 ?out
           (CAP_PROP_FPS (VideoCapture ordered_folder (hd (sorted_videos ?L))))
           (CAP_PROP_FRAME_WIDTH (VideoCapture ordered_folder (hd (sorted_videos ?L))),
            CAP_PROP_FRAME_HEIGHT (VideoCapture ordered_folder (hd (sorted_videos ?L)))) \<or>
         writer_opens env_mp4v_only MP4V ?out
           (CAP_PROP_FPS (VideoCapture ordered_folder (hd (sorted_videos ?L))))
           (CAP_PROP_FRAME_WIDTH (VideoCapture ordered_folder (hd (sorted_videos ?L))),
            CAP_PROP_FRAME_HEIGHT (VideoCapture ordered_folder (hd (sorted_videos ?L))))"
    by (simp add: env_mp4v_only_def)
  have w2: "writer_opens env_mp4v_only MP4V ?out 25 (4, 4)" by (simp add: env_mp4v_only_def)
  from concatenation_order [OF n o w, of "[]"]
  have 1: "\<exists>f. fst (first_pass env_mp4v_only (sorted_videos ?L) ?out (ordered_folder, [])) ?out = Some f \<and>
        file_frames f = [black_frame, black_frame, white_frame, white_frame] \<and>
        fst (concatenate_videos env_mp4v_only ?L ?out (ordered_folder, [])) ?out =
          Some (f\<lparr>file_codec := LIBX264\<rparr>)"
    and 2: "\<exists>before. snd (concatenate_videos env_mp4v_only ?L ?out (ordered_folder, [])) =
        before @ [ProcessingVideo (str_of ''clips/01M05S_1723482000.mp4''),
                  ProcessingVideo (str_of ''clips/04M20S_1723482260.mp4''),
                  ProcessingVideo (str_of ''clips/04M21S_1723482261.mp4''),
                  ConcatenationSaved ?out, RecompressionDone]"
    by (simp_all add: sorted_videos_example captures_ordered_folder example_capture_def
        env_mp4v_only_def)
  from o w2 sorted_videos_example 1 2 show ?thesis by (intro conjI)
qed

section \<open>Failure of the writer\<close>

lemma concatenate_no_writer:
  assumes "video_files \<noteq> []"
    and "isOpened (VideoCapture fs (hd (sorted_videos video_files)))"
    and "\<not> writer_opens env H264 output_path
           (CAP_PROP_FPS (VideoCapture fs (hd (sorted_videos video_files))))
           (CAP_PROP_FRAME_WIDTH (VideoCapture fs (hd (sorted_videos video_files))),
            CAP_PROP_FRAME_HEIGHT (VideoCapture fs (hd (sorted_videos video_files))))"
    and "\<not> writer_opens env MP4V output_path
           (CAP_PROP_FPS (VideoCapture fs (hd (sorted_videos video_files))))
           (CAP_PROP_FRAME_WIDTH (VideoCapture fs (hd (sorted_videos video_files))),
            CAP_PROP_FRAME_HEIGHT (VideoCapture fs (hd (sorted_videos video_files))))"
  shows "concatenate_videos env video_files output_path (fs, msgs) =
    (fs(output_path := None),
     msgs @ [TryingOtherCodec] @ map ProcessingVideo (sorted_videos video_files) @
       [ConcatenationSaved output_path, RecompressionFailed])"
  using first_pass_no_writer [OF assms(3,4), of msgs] assms(1,2)
  by (simp add: concatenate_videos_def second_pass_no_file Let_def)

lemma sorted_videos_single: "sorted_videos [p] = [p]"
  by (simp add: sorted_videos_def)

lemma capture_moving_folder:
  "VideoCapture moving_folder (str_of ''clips/00M01S_1.mp4'') =
     example_capture [black_frame, white_frame] 2"
  by (simp add: VideoCapture_example moving_folder_def)

lemma capture_rerun_folder:
  "VideoCapture rerun_folder (str_of ''clips/concatenated_output.mp4'') =
     example_capture [black_frame, white_frame] 2"
  by (simp add: VideoCapture_example rerun_folder_def)

lemma suffix_output: "lower (path_suffix (str_of ''clips/concatenated_output.mp4'')) = str_of ''.mp4''"
  by (simp add: str_of_def lower_def lower_char_def path_suffix_def path_name_def suffix_start_def)

lemma concatenate_rerun_folder:
  "concatenate_videos env_no_writer [str_of ''clips/concatenated_output.mp4'']
     (str_of ''clips/concatenated_output.mp4'') (rerun_folder, msgs) =
   (Map.empty,
    msgs @ [TryingOtherCodec, ProcessingVideo (str_of ''clips/concatenated_output.mp4''),
            ConcatenationSaved (str_of ''clips/concatenated_output.mp4''), RecompressionFailed])"
proof -
  have "concatenate_videos env_no_writer [str_of ''clips/concatenated_output.mp4'']
     (str_of ''clips/concatenated_output.mp4'') (rerun_folder, msgs) =
     (rerun_folder(str_of ''clips/concatenated_output.mp4'' := None),
      msgs @ [TryingOtherCodec] @
        map ProcessingVideo (sorted_videos [str_of ''clips/concatenated_output.mp4'']) @
        [ConcatenationSaved (str_of ''clips/concatenated_output.mp4''), RecompressionFailed])"
    by (rule concatenate_no_writer)
       (simp_all add: sorted_videos_single capture_rerun_folder example_capture_def env_no_writer_def)
  moreover have "rerun_folder(str_of ''clips/concatenated_output.mp4'' := None) = Map.empty"
    by (simp add: rerun_folder_def)
  ultimately show ?thesis by (simp add: sorted_videos_single)
qed

text \<open>
  Claim C3, as stated, fails in its last part. The folder holds the output of an earlier
  run, a clip in which the picture changes. The folder pass classifies it as having motion
  and keeps it. No writer opens: the concatenator has removed the file at the output path
  before it tried a writer, so the kept clip is gone and the folder is empty, and it has
  not aborted, it has gone through the clips and printed that the output was saved.
\<close>

theorem no_writer_deletes_kept_clip:
  "rerun_folder (str_of ''clips/concatenated_output.mp4'') =
     Some (example_file [black_frame, white_frame] 2) \<and>
   check_video_motion (VideoCapture rerun_folder (str_of ''clips/concatenated_output.mp4''))
     15 (0, 0, 3, 3) 100 = Inr True \<and>
   process_video_folder env_no_writer (str_of ''clips'') [str_of ''clips/concatenated_output.mp4'']
       15 True (0, 0, 3, 3) 100 (rerun_folder, []) =
     Inr (Map.empty,
          [ProcessingVideo (str_of ''clips/concatenated_output.mp4''),
           KeepingVideo (str_of ''clips/concatenated_output.mp4''),
           TryingOtherCodec,
           ProcessingVideo (str_of ''clips/concatenated_output.mp4''),
           ConcatenationSaved (str_of ''clips/concatenated_output.mp4''),
           RecompressionFailed])"
proof -
  have m: "check_video_motion (VideoCapture rerun_folder (str_of ''clips/concatenated_output.mp4''))
     15 (0, 0, 3, 3) 100 = Inr True"
    by (simp add: capture_rerun_folder moving_clip_has_motion)
  have s: "scan_files 15 (0, 0, 3, 3) 100 [str_of ''clips/concatenated_output.mp4'']
      ((rerun_folder, []), []) =
    Inr ((rerun_folder, [ProcessingVideo (str_of ''clips/concatenated_output.mp4''),
                         KeepingVideo (str_of ''clips/concatenated_output.mp4'')]),
         [str_of ''clips/concatenated_output.mp4''])"
    by (simp add: suffix_output video_extensions_def m)
  have p: "str_of ''clips'' @ str_of ''/concatenated_output.mp4'' =
      str_of ''clips/concatenated_output.mp4''"
    by (simp add: str_of_append)
  have "process_video_folder env_no_writer (str_of ''clips'') [str_of ''clips/concatenated_output.mp4'']
       15 True (0, 0, 3, 3) 100 (rerun_folder, []) =
     Inr (concatenate_videos env_no_writer [str_of ''clips/concatenated_output.mp4'']
            (str_of ''clips/concatenated_output.mp4'')
            (rerun_folder, [ProcessingVideo (str_of ''clips/concatenated_output.mp4''),
                            KeepingVideo (str_of ''clips/concatenated_output.mp4'')]))"
    unfolding process_video_folder_def s by (simp add: p)
  then show ?thesis
    by (simp add: concatenate_rerun_folder m) (simp add: rerun_folder_def)
qed

text \<open>
  Claim C3, amended. The list is not empty, its first sorted clip opens and the H.264
  writer does not open. If the MPEG-4 writer opens, it is created with the frame rate and
  dimensions of that first clip, and the file at the output path holds the frames of the
  sorted clips. If it does not open either, no frame is written: \<open>concatenate_videos\<close>
  leaves no file at the output path (a file that was there, be it a clip that the folder
  pass kept, was removed before a writer was tried), leaves every other file as it was,
  and reports that the second pass failed.
\<close>

theorem writer_fallback:
  assumes "video_files \<noteq> []"
    and "isOpened (VideoCapture fs (hd (sorted_videos video_files)))"
    and "\<not> writer_opens env H264 output_path
           (CAP_PROP_FPS (VideoCapture fs (hd (sorted_videos video_files))))
           (CAP_PROP_FRAME_WIDTH (VideoCapture fs (hd (sorted_videos video_files))),
            CAP_PROP_FRAME_HEIGHT (VideoCapture fs (hd (sorted_videos video_files))))"
  shows
    "(writer_opens env MP4V output_path
           (CAP_PROP_FPS (VideoCapture fs (hd (sorted_videos video_files))))
           (CAP_PROP_FRAME_WIDTH (VideoCapture fs (hd (sorted_videos video_files))),
            CAP_PROP_FRAME_HEIGHT (VideoCapture fs (hd (sorted_videos video_files))))
      \<longrightarrow> (\<exists>f. fst (first_pass env (sorted_videos video_files) output_path (fs, msgs)) output_path =
                 Some f \<and>
               file_codec f = MP4V \<and>
               file_fps f = CAP_PROP_FPS (VideoCapture fs (hd (sorted_videos video_files))) \<and>
               file_width f = CAP_PROP_FRAME_WIDTH (VideoCapture fs (hd (sorted_videos video_files))) \<and>
               file_height f = CAP_PROP_FRAME_HEIGHT (VideoCapture fs (hd (sorted_videos video_files))) \<and>
               file_frames f =
                 concat (map (\<lambda>p. if p = output_path then [] else cap_frames (VideoCapture fs p))
                             (sorted_videos video_files)))) \<and>
     (\<not> writer_opens env MP4V output_path
           (CAP_PROP_FPS (VideoCapture fs (hd (sorted_videos video_files))))
           (CAP_PROP_FRAME_WIDTH (VideoCapture fs (hd (sorted_videos video_files))),
            CAP_PROP_FRAME_HEIGHT (VideoCapture fs (hd (sorted_videos video_files))))
      \<longrightarrow> fst (concatenate_videos env video_files output_path (fs, msgs)) = fs(output_path := None) \<and>
          (\<exists>before. snd (concatenate_videos env video_files output_path (fs, msgs)) =
             msgs @ before @ [RecompressionFailed]))"
proof (intro conjI impI)
  assume "writer_opens env MP4V output_path
           (CAP_PROP_FPS (VideoCapture fs (hd (sorted_videos video_files))))
           (CAP_PROP_FRAME_WIDTH (VideoCapture fs (hd (sorted_videos video_files))),
            CAP_PROP_FRAME_HEIGHT (VideoCapture fs (hd (sorted_videos video_files))))"
  from first_pass_secondary [OF assms(3) this, of msgs]
  show "\<exists>f. fst (first_pass env (sorted_videos video_files) output_path (fs, msgs)) output_path =
                 Some f \<and>
               file_codec f = MP4V \<and>
               file_fps f = CAP_PROP_FPS (VideoCapture fs (hd (sorted_videos video_files))) \<and>
               file_width f = CAP_PROP_FRAME_WIDTH (VideoCapture fs (hd (sorted_videos video_files))) \<and>
               file_height f = CAP_PROP_FRAME_HEIGHT (VideoCapture fs (hd (sorted_videos video_files))) \<and>
               file_frames f =
                 concat (map (\<lambda>p. if p = output_path then [] else cap_frames (VideoCapture fs p))
                             (sorted_videos video_files))"
    by simp
next
  assume n: "\<not> writer_opens env MP4V output_path
           (CAP_PROP_FPS (VideoCapture fs (hd (sorted_videos video_files))))
           (CAP_PROP_FRAME_WIDTH (VideoCapture fs (hd (sorted_videos video_files))),
            CAP_PROP_FRAME_HEIGHT (VideoCapture fs (hd (sorted_videos video_files))))"
  show "fst (concatenate_videos env video_files output_path (fs, msgs)) = fs(output_path := None)"
    by (simp add: concatenate_no_writer [OF assms n])
  show "\<exists>before. snd (concatenate_videos env video_files output_path (fs, msgs)) =
             msgs @ before @ [RecompressionFailed]"
    by (rule exI [of _ "[TryingOtherCodec] @ map ProcessingVideo (sorted_videos video_files) @
          [ConcatenationSaved output_path]"])
       (simp add: concatenate_no_writer [OF assms n])
qed

theorem writer_fallback_witness:
  "isOpened (VideoCapture moving_folder (hd (sorted_videos [str_of ''clips/00M01S_1.mp4'']))) \<and>
   \<not> writer_opens env_mp4v_only H264 (str_of ''clips/concatenated_output.mp4'') 25 (4, 4) \<and>
   writer_opens env_mp4v_only MP4V (str_of ''clips/concatenated_output.mp4'') 25 (4, 4) \<and>
   (\<exists>f. fst (first_pass env_mp4v_only (sorted_videos [str_of ''clips/00M01S_1.mp4''])
               (str_of ''clips/concatenated_output.mp4'') (moving_folder, []))
          (str_of ''clips/concatenated_output.mp4'') = Some f \<and>
        file_codec f = MP4V \<and> file_fps f = 25 \<and> file_width f = 4 \<and> file_height f = 4 \<and>
        file_frames f = [black_frame, white_frame]) \<and>
   \<not> writer_opens env_no_writer H264 (str_of ''clips/concatenated_output.mp4'') 25 (4, 4) \<and>
   \<not> writer_opens env_no_writer MP4V (str_of ''clips/concatenated_output.mp4'') 25 (4, 4) \<and>
   (moving_folder(str_of ''clips/concatenated_output.mp4'' \<mapsto> example_file [white_frame] 1))
      (str_of ''clips/concatenated_output.mp4'') = Some (example_file [white_frame] 1) \<and>
   fst (concatenate_videos env_no_writer [str_of ''clips/00M01S_1.mp4'']
          (str_of ''clips/concatenated_output.mp4'')
          (moving_folder(str_of ''clips/concatenated_output.mp4'' \<mapsto> example_file [white_frame] 1),
           [])) = moving_folder \<and>
   (\<exists>before. snd (concatenate_videos env_no_writer [str_of ''clips/00M01S_1.mp4'']
          (str_of ''clips/concatenated_output.mp4'')
          (moving_folder(str_of ''clips/concatenated_output.mp4'' \<mapsto> example_file [white_frame] 1),
           [])) = before @ [RecompressionFailed])"
proof -
  let ?clip = "str_of ''clips/00M01S_1.mp4''" and ?out = "str_of ''clips/concatenated_output.mp4''"
  let ?fs = "moving_folder(?out \<mapsto> example_file [white_frame] 1)"
  have c: "VideoCapture moving_folder (hd (sorted_videos [?clip])) =
      example_capture [black_frame, white_frame] 2"
    by (simp add: sorted_videos_single capture_moving_folder)
  have c': "VideoCapture ?fs (hd (sorted_videos [?clip])) = example_capture [black_frame, white_frame] 2"
    by (simp add: sorted_videos_single VideoCapture_example moving_folder_def)
  have o: "isOpened (VideoCapture moving_folder (hd (sorted_videos [?clip])))"
    unfolding c by (simp add: example_capture_def)
  have o': "isOpened (VideoCapture ?fs (hd (sorted_videos [?clip])))"
    unfolding c' by (simp add: example_capture_def)
  have a: "\<not> writer_opens env_mp4v_only H264 ?out
           (CAP_PROP_FPS (VideoCapture moving_folder (hd (sorted_videos [?clip]))))
           (CAP_PROP_FRAME_WIDTH (VideoCapture moving_folder (hd (sorted_videos [?clip]))),
            CAP_PROP_FRAME_HEIGHT (VideoCapture moving_folder (hd (sorted_videos [?clip]))))"
    by (simp add: env_mp4v_only_def)
  have b: "\<not> writer_opens env_no_writer H264 ?out
           (CAP_PROP_FPS (VideoCapture ?fs (hd (sorted_videos [?clip]))))
           (CAP_PROP_FRAME_WIDTH (VideoCapture ?fs (hd (sorted_videos [?clip]))),
            CAP_PROP_FRAME_HEIGHT (VideoCapture ?fs (hd (sorted_videos [?clip]))))"
    by (simp add: env_no_writer_def)
  have n: "[?clip] \<noteq> []" by simp
  from writer_fallback [OF n o a, of "[]"]
  have 1: "\<exists>f. fst (first_pass env_mp4v_only (sorted_videos [?clip]) ?out (moving_folder, [])) ?out =
          Some f \<and>
        file_codec f = MP4V \<and> file_fps f = 25 \<and> file_width f = 4 \<and> file_height f = 4 \<and>
        file_frames f = [black_frame, white_frame]"
    unfolding c
    by (simp add: env_mp4v_only_def example_capture_def sorted_videos_single capture_moving_folder)
  have r: "?fs(?out := None) = moving_folder"
    by (simp add: moving_folder_def)
  from writer_fallback [OF n o' b, of "[]"]
  have 2: "fst (concatenate_videos env_no_writer [?clip] ?out (?fs, [])) = moving_folder"
    and 3: "\<exists>before. snd (concatenate_videos env_no_writer [?clip] ?out (?fs, [])) =
        before @ [RecompressionFailed]"
    unfolding r by (simp_all add: env_no_writer_def)
  have 4: "?fs ?out = Some (example_file [white_frame] 1)" by simp
  from o 1 2 3 4 show ?thesis
    by (simp add: env_mp4v_only_def env_no_writer_def)
qed

section \<open>Failure of the second pass\<close>

text \<open>
  When ffmpeg leaves nothing at the output path, the file written by the first pass has
  been renamed to the temporary path and is removed from there: no file remains, and
  the message of failure is not printed.
\<close>

lemma failed_compression_loses_output:
  assumes "video_files \<noteq> []"
    and "isOpened (VideoCapture fs (hd (sorted_videos video_files)))"
    and "writer_opens env H264 output_path
           (CAP_PROP_FPS (VideoCapture fs (hd (sorted_videos video_files))))
           (CAP_PROP_FRAME_WIDTH (VideoCapture fs (hd (sorted_videos video_files))),
            CAP_PROP_FRAME_HEIGHT (VideoCapture fs (hd (sorted_videos video_files))))"
    and "\<forall>f. ffmpeg env f = None"
  shows "concatenate_videos env video_files output_path (fs, msgs) =
    (fs(output_path := None, output_path @ str_of ''.temp.mp4'' := None),
     msgs @ map ProcessingVideo (sorted_videos video_files) @
       [ConcatenationSaved output_path, RecompressionDone])"
  using assms
  by (simp add: concatenate_videos_def Let_def first_pass_primary second_pass_ffmpeg_fails)

text \<open>
  Claim C1 at a folder with one clip, every writer available and ffmpeg missing. The first
  pass writes the two frames of the clip to the output path. After the second pass there
  is no file at the output path and none at the temporary path, and the messages end
  with the report that the second pass is done, not that it failed.
\<close>

theorem missing_ffmpeg_destroys_output:
  "fst (first_pass env_without_ffmpeg (sorted_videos [str_of ''clips/00M01S_1.mp4''])
          (str_of ''clips/concatenated_output.mp4'') (moving_folder, [])) (str_of ''clips/concatenated_output.mp4'') =
     Some \<lparr>decodable = True, file_frames = [black_frame, white_frame], file_frame_count = 2,
           file_fps = 25, file_width = 4, file_height = 4, file_codec = H264\<rparr> \<and>
   concatenate_videos env_without_ffmpeg [str_of ''clips/00M01S_1.mp4''] (str_of ''clips/concatenated_output.mp4'')
       (moving_folder, []) =
     (moving_folder,
      [ProcessingVideo (str_of ''clips/00M01S_1.mp4''), ConcatenationSaved (str_of ''clips/concatenated_output.mp4''),
       RecompressionDone]) \<and>
   moving_folder (str_of ''clips/concatenated_output.mp4'') = None \<and>
   moving_folder (str_of ''clips/concatenated_output.mp4.temp.mp4'') = None"
proof -
  have c: "VideoCapture moving_folder (hd (sorted_videos [str_of ''clips/00M01S_1.mp4''])) =
      example_capture [black_frame, white_frame] 2"
    by (simp add: sorted_videos_single capture_moving_folder)
  have w: "writer_opens env_without_ffmpeg H264 (str_of ''clips/concatenated_output.mp4'')
           (CAP_PROP_FPS (VideoCapture moving_folder (hd (sorted_videos [str_of ''clips/00M01S_1.mp4'']))))
           (CAP_PROP_FRAME_WIDTH (VideoCapture moving_folder (hd (sorted_videos [str_of ''clips/00M01S_1.mp4'']))),
            CAP_PROP_FRAME_HEIGHT (VideoCapture moving_folder (hd (sorted_videos [str_of ''clips/00M01S_1.mp4'']))))"
    by (simp add: env_without_ffmpeg_def)
  have o: "isOpened (VideoCapture moving_folder (hd (sorted_videos [str_of ''clips/00M01S_1.mp4''])))"
    unfolding c by (simp add: example_capture_def)
  have n: "moving_folder (str_of ''clips/concatenated_output.mp4'') = None"
    "moving_folder (str_of ''clips/concatenated_output.mp4.temp.mp4'') = None"
    by (simp_all add: moving_folder_def)
  have 1: "fst (first_pass env_without_ffmpeg (sorted_videos [str_of ''clips/00M01S_1.mp4''])
          (str_of ''clips/concatenated_output.mp4'') (moving_folder, [])) (str_of ''clips/concatenated_output.mp4'') =
     Some \<lparr>decodable = True, file_frames = [black_frame, white_frame], file_frame_count = 2,
           file_fps = 25, file_width = 4, file_height = 4, file_codec = H264\<rparr>"
    unfolding first_pass_primary [OF w] c
    by (simp add: sorted_videos_single capture_moving_folder example_capture_def)
  have "concatenate_videos env_without_ffmpeg [str_of ''clips/00M01S_1.mp4''] (str_of ''clips/concatenated_output.mp4'')
       (moving_folder, []) =
     (moving_folder(str_of ''clips/concatenated_output.mp4'' := None,
                    str_of ''clips/concatenated_output.mp4'' @ str_of ''.temp.mp4'' := None),
      [] @ map ProcessingVideo (sorted_videos [str_of ''clips/00M01S_1.mp4'']) @
        [ConcatenationSaved (str_of ''clips/concatenated_output.mp4''), RecompressionDone])"
    by (rule failed_compression_loses_output [OF _ o w]) (simp_all add: env_without_ffmpeg_def)
  moreover have "moving_folder(str_of ''clips/concatenated_output.mp4'' := None,
                    str_of ''clips/concatenated_output.mp4'' @ str_of ''.temp.mp4'' := None) = moving_folder"
    by (simp add: moving_folder_def str_of_append)
  ultimately have 2: "concatenate_videos env_without_ffmpeg [str_of ''clips/00M01S_1.mp4'']
       (str_of ''clips/concatenated_output.mp4'') (moving_folder, []) =
     (moving_folder,
      [ProcessingVideo (str_of ''clips/00M01S_1.mp4''), ConcatenationSaved (str_of ''clips/concatenated_output.mp4''),
       RecompressionDone])"
    by (simp add: sorted_videos_single)
  from 1 2 n show ?thesis by simp
qed

section \<open>An empty list of clips\<close>

lemma scan_files_creates_no_file:
  assumes "scan_files threshold box ratio_threshold files ((fs, msgs), kept) = Inr ((fs', msgs'), kept')"
  shows "fs' p \<noteq> None \<longrightarrow> fs' p = fs p"
  using assms
proof (induction files arbitrary: fs msgs kept)
  case Nil
  then show ?case by simp
next
  case (Cons v rest)
  show ?case
  proof (cases "lower (path_suffix v) \<in> set video_extensions")
    case False
    with Cons.prems have "scan_files threshold box ratio_threshold rest ((fs, msgs), kept) =
        Inr ((fs', msgs'), kept')" by simp
    from Cons.IH [OF this] show ?thesis .
  next
    case True
    show ?thesis
    proof (cases "check_video_motion (VideoCapture fs v) threshold box ratio_threshold")
      case (Inl e)
      with True Cons.prems show ?thesis by simp
    next
      case (Inr has_motion)
      show ?thesis
      proof (cases has_motion)
        case mt: True
        with True Inr Cons.prems have "scan_files threshold box ratio_threshold rest
            ((fs, msgs @ [ProcessingVideo v, KeepingVideo v]), kept @ [v]) =
          Inr ((fs', msgs'), kept')" by simp
        from Cons.IH [OF this] show ?thesis .
      next
        case mf: False
        show ?thesis
        proof (cases "fs v \<noteq> None")
          case ex: True
          with True Inr mf Cons.prems have "scan_files threshold box ratio_threshold rest
              ((fs(v := None), msgs @ [ProcessingVideo v, DeletingStaticVideo v]), kept) =
            Inr ((fs', msgs'), kept')" by simp
          from Cons.IH [OF this] show ?thesis by (auto split: if_splits)
        next
          case nex: False
          with True Inr mf Cons.prems have "scan_files threshold box ratio_threshold rest
              ((fs, msgs @ [ProcessingVideo v, DeletingStaticVideo v, FileDoesNotExist v]), kept) =
            Inr ((fs', msgs'), kept')" by simp
          from Cons.IH [OF this] show ?thesis .
        qed
      qed
    qed
  qed
qed

text \<open>
  Claim C8. With an empty list \<open>concatenate_videos\<close> prints that there is nothing to
  concatenate and returns with the file system as it was. When the folder pass keeps no
  clip, \<open>process_video_folder\<close> does not call the concatenator: it returns, without an
  error, the state in which the scan of the files left it, and in that state there is no
  file that was not there before.
\<close>

theorem empty_survivor_set:
  "concatenate_videos env [] output_path (fs, msgs) = (fs, msgs @ [NothingToConcatenate]) \<and>
   (scan_files threshold box ratio_threshold files ((fs, msgs), []) = Inr ((fs', msgs'), [])
    \<longrightarrow> process_video_folder env folder_path files threshold concat_flag box ratio_threshold (fs, msgs) =
          Inr (fs', msgs') \<and>
        (\<forall>p. fs' p \<noteq> None \<longrightarrow> fs' p = fs p))"
  using scan_files_creates_no_file [of threshold box ratio_threshold files fs msgs "[]" fs' msgs' "[]"]
  by (auto simp: concatenate_videos_def process_video_folder_def)

lemma suffix_static_clip: "lower (path_suffix (str_of ''clips/00M02S_2.mp4'')) = str_of ''.mp4''"
  by (simp add: str_of_def lower_def lower_char_def path_suffix_def path_name_def suffix_start_def)

lemma capture_static_folder:
  "VideoCapture static_folder (str_of ''clips/00M02S_2.mp4'') = example_capture [black_frame, black_frame] 2"
  by (simp add: VideoCapture_example static_folder_def)

lemma scan_static_folder:
  "scan_files 500 (0, 0, 3, 3) (1 / 10) [str_of ''clips/00M02S_2.mp4''] ((static_folder, []), []) =
   Inr ((Map.empty, [ProcessingVideo (str_of ''clips/00M02S_2.mp4''), DeletingStaticVideo (str_of ''clips/00M02S_2.mp4'')]),
        [])"
  by (simp add: suffix_static_clip video_extensions_def capture_static_folder
      static_clip_has_no_motion) (simp add: static_folder_def)

theorem empty_survivor_set_witness:
  "scan_files 500 (0, 0, 3, 3) (1 / 10) [str_of ''clips/00M02S_2.mp4''] ((static_folder, []), []) =
     Inr ((Map.empty, [ProcessingVideo (str_of ''clips/00M02S_2.mp4''),
                       DeletingStaticVideo (str_of ''clips/00M02S_2.mp4'')]), []) \<and>
   process_video_folder env_without_ffmpeg (str_of ''clips'') [str_of ''clips/00M02S_2.mp4''] 500 True (0, 0, 3, 3)
       (1 / 10) (static_folder, []) =
     Inr (Map.empty, [ProcessingVideo (str_of ''clips/00M02S_2.mp4''),
                      DeletingStaticVideo (str_of ''clips/00M02S_2.mp4'')]) \<and>
   concatenate_videos env_without_ffmpeg [] (str_of ''clips/concatenated_output.mp4'') (static_folder, []) =
     (static_folder, [NothingToConcatenate])"
  using empty_survivor_set [of env_without_ffmpeg "(str_of ''clips/concatenated_output.mp4'')" static_folder "[]"
      500 "(0, 0, 3, 3)" "1 / 10" "[str_of ''clips/00M02S_2.mp4'']" Map.empty
      "[ProcessingVideo (str_of ''clips/00M02S_2.mp4''), DeletingStaticVideo (str_of ''clips/00M02S_2.mp4'')]"
      "(str_of ''clips'')" True]
    scan_static_folder
  by simp

end
